theory Spec2Isabelle
  imports Main "HOL-Library.Sublist"
begin

section \<open>Python strings\<close>

text \<open>
  A Python \<open>str\<close> is a sequence of Unicode code points; \<open>len\<close>, indexing, slicing and the
  positions reported by \<open>re\<close> all count code points. A string is therefore a list of
  natural numbers here. \<open>cps\<close> turns an ASCII literal into its code points; \<open>228\<close> is
  \<open>U+00E4\<close> (a-umlaut), \<open>196\<close> its capital.
\<close>

type_synonym str = "nat list"

definition cps :: "string \<Rightarrow> str" where
  "cps s = map of_char s"

definition isspace :: "nat \<Rightarrow> bool" where
  \<comment> \<open>\<open>str.isspace\<close>, which is also the class \<open>\s\<close> of \<open>re\<close> on \<open>str\<close> patterns.\<close>
  "isspace c \<longleftrightarrow> c \<in> {9, 10, 11, 12, 13, 28, 29, 30, 31, 32, 133, 160, 5760,
     8192, 8193, 8194, 8195, 8196, 8197, 8198, 8199, 8200, 8201, 8202,
     8232, 8233, 8239, 8287, 12288}"

definition decimal_zeros :: "nat list" where
  \<comment> \<open>The digit zero of every script with decimal digits (general category Nd, Unicode 14,
      the database of CPython 3.11); the nine code points after each are its digits 1 to 9.\<close>
  "decimal_zeros = [48, 1632, 1776, 1984, 2406, 2534, 2662, 2790, 2918, 3046, 3174, 3302,
     3430, 3558, 3664, 3792, 3872, 4160, 4240, 6112, 6160, 6470, 6608, 6784, 6800, 6992,
     7088, 7232, 7248, 42528, 43216, 43264, 43472, 43504, 43600, 44016, 65296, 66720,
     68912, 69734, 69872, 69942, 70096, 70384, 70736, 70864, 71248, 71360, 71472, 71904,
     72016, 72784, 73040, 73120, 92768, 92864, 93008, 120782, 120792, 120802, 120812,
     120822, 123200, 123632, 125264, 130032]"

definition decimal :: "nat \<Rightarrow> nat option" where
  \<comment> \<open>\<open>unicodedata.decimal\<close>: the value of a decimal digit, \<open>None\<close> for any other code point.\<close>
  "decimal c = map_option (\<lambda>z. c - z) (find (\<lambda>z. z \<le> c \<and> c < z + 10) decimal_zeros)"

definition isdecimal :: "nat \<Rightarrow> bool" where
  \<comment> \<open>The class \<open>\d\<close> of \<open>re\<close> on \<open>str\<close> patterns.\<close>
  "isdecimal c \<longleftrightarrow> decimal c \<noteq> None"

definition strip_with :: "(nat \<Rightarrow> bool) \<Rightarrow> str \<Rightarrow> str" where
  "strip_with p s = rev (dropWhile p (rev (dropWhile p s)))"

definition str_strip :: "str \<Rightarrow> str" where
  \<comment> \<open>\<open>s.strip()\<close>\<close>
  "str_strip s = strip_with isspace s"

definition numeric_space :: "nat \<Rightarrow> bool" where
  \<comment> \<open>The whitespace that \<open>int\<close> and \<open>float\<close> drop around a number: that of
      \<open>str.isspace\<close> without the four separators \<open>U+001C\<close> to \<open>U+001F\<close>.\<close>
  "numeric_space c \<longleftrightarrow> isspace c \<and> \<not> (28 \<le> c \<and> c \<le> 31)"

fun str_find :: "str \<Rightarrow> str \<Rightarrow> int" where
  \<comment> \<open>\<open>s.find(sub)\<close>: the lowest index at which \<open>sub\<close> occurs, \<open>-1\<close> when it does not.\<close>
  "str_find [] sub = (if sub = [] then 0 else - 1)"
| "str_find (x # xs) sub =
     (if prefix sub (x # xs) then 0
      else (let i = str_find xs sub in if i = - 1 then - 1 else i + 1))"

definition py_slice :: "str \<Rightarrow> int \<Rightarrow> int \<Rightarrow> str" where
  \<comment> \<open>\<open>s[i:j]\<close>, with Python's treatment of negative and out-of-range bounds.\<close>
  "py_slice s i j =
     (let n = int (length s);
          lo = (if i < 0 then max 0 (i + n) else min i n);
          hi = (if j < 0 then max 0 (j + n) else min j n)
      in take (nat hi - nat lo) (drop (nat lo) s))"

fun str_nat :: "nat \<Rightarrow> str" where
  "str_nat n = (if n < 10 then [48 + n] else str_nat (n div 10) @ [48 + n mod 10])"

declare str_nat.simps [simp del]

definition py_str :: "int \<Rightarrow> str" where
  \<comment> \<open>\<open>str(i)\<close> for an \<open>int\<close>: its decimal rendering in ASCII digits.\<close>
  "py_str i = (if i < 0 then 45 # str_nat (nat (- i)) else str_nat (nat i))"

fun digits_from :: "nat \<Rightarrow> str \<Rightarrow> nat option" where
  \<comment> \<open>The rest of a digit string after a digit: digits, or one underscore and a digit.\<close>
  "digits_from acc [] = Some acc"
| "digits_from acc (x # xs) =
     (if x = 95 then
        (case xs of
           [] \<Rightarrow> None
         | y # ys \<Rightarrow> (case decimal y of None \<Rightarrow> None | Some d \<Rightarrow> digits_from (10 * acc + d) ys))
      else (case decimal x of None \<Rightarrow> None | Some d \<Rightarrow> digits_from (10 * acc + d) xs))"

definition digit_string :: "str \<Rightarrow> nat option" where
  "digit_string s =
     (case s of [] \<Rightarrow> None
      | x # xs \<Rightarrow> (case decimal x of None \<Rightarrow> None | Some d \<Rightarrow> digits_from d xs))"

definition py_int :: "str \<Rightarrow> int option" where
  \<comment> \<open>\<open>int(s)\<close> for a \<open>str\<close>, base ten: surrounding whitespace is dropped, one sign is
      allowed, the digits may be of any script and may be separated by single underscores.
      \<open>None\<close> is \<open>ValueError\<close>. (CPython's configurable limit of 4300 digits is an
      interpreter setting and is not part of the model.)\<close>
  "py_int s =
     (case strip_with numeric_space s of
        [] \<Rightarrow> None
      | x # xs \<Rightarrow>
          if x = 45 then map_option (\<lambda>n. - int n) (digit_string xs)
          else if x = 43 then map_option int (digit_string xs)
          else map_option int (digit_string (x # xs)))"

section \<open>The \<open>re\<close> module: a backtracking matcher\<close>

text \<open>
  The patterns of \<open>scraper.py\<close> and of \<open>html.unescape\<close> are built from single-character
  classes, concatenation, alternation, greedy repetition and capturing groups. \<open>ms r s g\<close>
  lists every way in which \<open>r\<close> can match at the start of \<open>s\<close>, each as the text left over
  and the groups captured so far, in the order in which the backtracking engine of \<open>re\<close>
  tries them: the left branch of an alternative first, one more repetition before none.
  The engine reports the first entry of the list.
\<close>

type_synonym groups = "(nat \<times> str) list"

datatype regex =
    Sat "nat \<Rightarrow> bool"
  | Eps
  | Seq regex regex
  | Alt regex regex
  | Star regex
  | Grp nat regex

function ms :: "regex \<Rightarrow> str \<Rightarrow> groups \<Rightarrow> (str \<times> groups) list" where
  "ms (Sat p) s g = (case s of [] \<Rightarrow> [] | x # xs \<Rightarrow> if p x then [(xs, g)] else [])"
| "ms Eps s g = [(s, g)]"
| "ms (Seq a b) s g = concat (map (\<lambda>(s1, g1). ms b s1 g1) (ms a s g))"
| "ms (Alt a b) s g = ms a s g @ ms b s g"
| "ms (Star r) s g =
     concat (map (\<lambda>(s1, g1). if length s1 < length s then ms (Star r) s1 g1 else [])
                 (ms r s g))
     @ [(s, g)]"
| "ms (Grp n r) s g =
     map (\<lambda>(s1, g1). (s1, (n, take (length s - length s1) s) # g1)) (ms r s g)"
  by pat_completeness auto
termination
  by (relation "inv_image (less_than <*lex*> less_than) (\<lambda>(r, s, g). (size r, length s))")
     auto

declare ms.simps [simp del]

definition seq :: "regex list \<Rightarrow> regex" where
  "seq rs = foldr Seq rs Eps"

definition many1 :: "regex \<Rightarrow> regex" where
  \<comment> \<open>\<open>r+\<close>\<close>
  "many1 r = Seq r (Star r)"

definition optional :: "regex \<Rightarrow> regex" where
  \<comment> \<open>\<open>r?\<close>\<close>
  "optional r = Alt r Eps"

fun at_most :: "nat \<Rightarrow> regex \<Rightarrow> regex" where
  \<comment> \<open>\<open>r{0,n}\<close>\<close>
  "at_most 0 r = Eps"
| "at_most (Suc n) r = optional (Seq r (at_most n r))"

definition lit :: "string \<Rightarrow> regex" where
  \<comment> \<open>a literal, matched case-sensitively\<close>
  "lit s = seq (map (\<lambda>ch. Sat (\<lambda>x. x = of_char ch)) s)"

definition any_of :: "str \<Rightarrow> regex" where
  "any_of cs = Sat (\<lambda>x. x \<in> set cs)"

definition none_of :: "str \<Rightarrow> regex" where
  "none_of cs = Sat (\<lambda>x. x \<notin> set cs)"

definition lower :: "nat \<Rightarrow> nat" where
  \<comment> \<open>The simple lowercase mapping, on the code points whose lowercase is an ASCII
      character or a Latin-1 letter.\<close>
  "lower c =
     (if (65 \<le> c \<and> c \<le> 90) \<or> (192 \<le> c \<and> c \<le> 222 \<and> c \<noteq> 215) then c + 32
      else if c = 304 then 105 else if c = 8490 then 107 else if c = 8491 then 229
      else c)"

definition ic :: "nat \<Rightarrow> nat \<Rightarrow> bool" where
  \<comment> \<open>\<open>ic p x\<close>: under \<open>re.IGNORECASE\<close> the pattern character \<open>p\<close> matches the code point
      \<open>x\<close>. Exact for every ASCII \<open>p\<close> and for a-umlaut, the characters that occur in the
      patterns below: beside the two cases of a letter, \<open>i\<close> also matches \<open>U+0130\<close> and
      \<open>U+0131\<close>, \<open>s\<close> matches \<open>U+017F\<close> and \<open>k\<close> matches \<open>U+212A\<close>.\<close>
  "ic p x \<longleftrightarrow> lower x = lower p \<or> (lower p = 105 \<and> x = 305) \<or> (lower p = 115 \<and> x = 383)"

definition lit_i :: "string \<Rightarrow> regex" where
  \<comment> \<open>a literal under \<open>re.IGNORECASE\<close>\<close>
  "lit_i s = seq (map (\<lambda>ch. Sat (ic (of_char ch))) s)"

definition any_of_i :: "str \<Rightarrow> regex" where
  \<comment> \<open>a character set under \<open>re.IGNORECASE\<close>\<close>
  "any_of_i cs = Sat (\<lambda>x. \<exists>p \<in> set cs. ic p x)"

record match =
  m_start :: nat
  m_end :: nat
  m_groups :: groups

definition m_group :: "match \<Rightarrow> nat \<Rightarrow> str option" where
  \<comment> \<open>\<open>m.group(n)\<close> for \<open>n \<ge> 1\<close>; \<open>None\<close> when the group took no part in the match.\<close>
  "m_group m n = map_of (m_groups m) n"

fun search_from :: "regex \<Rightarrow> nat \<Rightarrow> str \<Rightarrow> match option" where
  "search_from r i s =
     (case ms r s [] of
        (rest, g) # _ \<Rightarrow>
          Some \<lparr>m_start = i, m_end = i + (length s - length rest), m_groups = g\<rparr>
      | [] \<Rightarrow> (case s of [] \<Rightarrow> None | x # xs \<Rightarrow> search_from r (Suc i) xs))"

declare search_from.simps [simp del]

definition re_search :: "regex \<Rightarrow> str \<Rightarrow> match option" where
  \<comment> \<open>\<open>pattern.search(s)\<close>: the match at the leftmost position that has one.\<close>
  "re_search r s = search_from r 0 s"

function re_sub :: "regex \<Rightarrow> (groups \<Rightarrow> str) \<Rightarrow> str \<Rightarrow> str" where
  \<comment> \<open>\<open>pattern.sub(repl, s)\<close>, \<open>repl\<close> a function of the match (of its groups). Matches are
      replaced from left to right and do not overlap. After an empty match the engine
      looks for a non-empty one at the same position before it moves on by one
      character (Python 3.7 and later).\<close>
  "re_sub r f s =
     (case ms r s [] of
        [] \<Rightarrow> (case s of [] \<Rightarrow> [] | x # xs \<Rightarrow> x # re_sub r f xs)
      | (rest, g) # alts \<Rightarrow>
          if length rest < length s then f g @ re_sub r f rest
          else f g @
            (case find (\<lambda>(rest', g'). length rest' < length s) alts of
               Some (rest', g') \<Rightarrow> f g' @ re_sub r f rest'
             | None \<Rightarrow> (case s of [] \<Rightarrow> [] | x # xs \<Rightarrow> x # re_sub r f xs)))"
  by pat_completeness auto
termination
  by (relation "measure (\<lambda>(r, f, s). length s)") (auto simp: find_Some_iff)

declare re_sub.simps [simp del]

section \<open>\<open>html.unescape\<close>\<close>

text \<open>
  The standard library's \<open>html.unescape\<close>, from its source. The table of the 2231 named
  character references, \<open>html.entities.html5\<close>, is a parameter \<open>h\<close>: a partial map from
  names such as \<open>amp;\<close> to their replacement text. The names of the library keep their
  leading underscore there; Isabelle names cannot start with one.
\<close>

definition invalid_charrefs :: "(nat \<times> nat) list" where
  "invalid_charrefs = [(0, 65533), (13, 13), (128, 8364), (129, 129), (130, 8218),
     (131, 402), (132, 8222), (133, 8230), (134, 8224), (135, 8225), (136, 710),
     (137, 8240), (138, 352), (139, 8249), (140, 338), (141, 141), (142, 381), (143, 143),
     (144, 144), (145, 8216), (146, 8217), (147, 8220), (148, 8221), (149, 8226),
     (150, 8211), (151, 8212), (152, 732), (153, 8482), (154, 353), (155, 8250),
     (156, 339), (157, 157), (158, 382), (159, 376)]"

definition invalid_codepoints :: "nat \<Rightarrow> bool" where
  "invalid_codepoints n \<longleftrightarrow>
     (1 \<le> n \<and> n \<le> 8) \<or> n = 11 \<or> (14 \<le> n \<and> n \<le> 31) \<or> (127 \<le> n \<and> n \<le> 159) \<or>
     (64976 \<le> n \<and> n \<le> 65007) \<or>
     (n \<le> 1114111 \<and> (n mod 65536 = 65534 \<or> n mod 65536 = 65535))"

definition hex_digit :: "nat \<Rightarrow> nat option" where
  "hex_digit c =
     (if 48 \<le> c \<and> c \<le> 57 then Some (c - 48)
      else if 97 \<le> c \<and> c \<le> 102 then Some (c - 87)
      else if 65 \<le> c \<and> c \<le> 70 then Some (c - 55)
      else None)"

definition int_base :: "nat \<Rightarrow> str \<Rightarrow> nat" where
  \<comment> \<open>\<open>int(s, base)\<close> on a run of ASCII digits of that base, the only strings the
      pattern \<open>charref\<close> lets through.\<close>
  "int_base b s = foldl (\<lambda>acc c. b * acc + (case hex_digit c of Some d \<Rightarrow> d | None \<Rightarrow> 0)) 0 s"

definition rstrip_semicolon :: "str \<Rightarrow> str" where
  \<comment> \<open>\<open>s.rstrip(';')\<close>\<close>
  "rstrip_semicolon s = rev (dropWhile (\<lambda>c. c = 59) (rev s))"

fun named_prefix :: "(str \<rightharpoonup> str) \<Rightarrow> str \<Rightarrow> nat \<Rightarrow> str" where
  \<comment> \<open>\<open>for x in range(len(s)-1, 1, -1)\<close>: the longest proper prefix of at least two
      characters that is a name, else the text unchanged.\<close>
  "named_prefix h s 0 = 38 # s"
| "named_prefix h s (Suc n) =
     (if Suc n \<le> 1 then 38 # s
      else (case h (take (Suc n) s) of
              Some v \<Rightarrow> v @ drop (Suc n) s
            | None \<Rightarrow> named_prefix h s n))"

definition replace_charref :: "(str \<rightharpoonup> str) \<Rightarrow> groups \<Rightarrow> str" where
  "replace_charref h g =
     (case map_of g 1 of
        None \<Rightarrow> []
      | Some s \<Rightarrow>
          (case s of
             [] \<Rightarrow> []
           | c # t \<Rightarrow>
               if c = 35 then
                 (let num = (case t of
                               [] \<Rightarrow> 0
                             | d # u \<Rightarrow> if d = 120 \<or> d = 88 then int_base 16 (rstrip_semicolon u)
                                        else int_base 10 (rstrip_semicolon t))
                  in case map_of invalid_charrefs num of
                       Some v \<Rightarrow> [v]
                     | None \<Rightarrow>
                         if (55296 \<le> num \<and> num \<le> 57343) \<or> num > 1114111 then [65533]
                         else if invalid_codepoints num then []
                         else [num])
               else
                 (case h s of
                    Some v \<Rightarrow> v
                  | None \<Rightarrow> named_prefix h s (length s - 1))))"

definition charref :: regex where
  \<comment> \<open>\<open>&(#[0-9]+;?|#[xX][0-9a-fA-F]+;?|[^\t\n\f <&#;]{1,32};?)\<close>\<close>
  "charref =
     Seq (lit ''&'')
       (Grp 1
         (Alt (seq [lit ''#'', many1 (any_of (cps ''0123456789'')), optional (lit '';'')])
         (Alt (seq [lit ''#'', any_of (cps ''xX''),
                    many1 (any_of (cps ''0123456789abcdefABCDEF'')), optional (lit '';'')])
              (seq [none_of [9, 10, 12, 32, 60, 38, 35, 59],
                    at_most 31 (none_of [9, 10, 12, 32, 60, 38, 35, 59]), optional (lit '';'')]))))"

definition unescape :: "(str \<rightharpoonup> str) \<Rightarrow> str \<Rightarrow> str" where
  "unescape h s = (if 38 \<notin> set s then s else re_sub charref (replace_charref h) s)"

section \<open>\<open>app/scraper.py\<close>: patterns and page parsing\<close>

datatype exn =
    GuestCountError string
  | ValueError
  | TypeError
  | TimeoutError
  | ConnectionClosed
  | JSONDecodeError

record GuestCount =
  timestamp :: int
  count :: int
  capacity :: "int option"

definition COUNT_PATTERN :: regex where
  \<comment> \<open>\<open>Anzahl\s+G[\xe4a]ste[^0-9]*(\d+)\<close>, \<open>re.IGNORECASE\<close>\<close>
  "COUNT_PATTERN =
     seq [lit_i ''Anzahl'', many1 (Sat isspace), lit_i ''G'', any_of_i [228, 97], lit_i ''ste'',
          Star (none_of (cps ''0123456789'')), Grp 1 (many1 (Sat isdecimal))]"

definition COUNT_ID_PATTERN :: regex where
  \<comment> \<open>\<open><td[^>]*id=["']SSD-(?:\d+)_visitornumber["'][^>]*>\s*(\d+)\s*<\<close>, \<open>re.IGNORECASE\<close>\<close>
  "COUNT_ID_PATTERN =
     seq [lit_i ''<td'', Star (none_of [62]), lit_i ''id='', any_of [34, 39], lit_i ''SSD-'',
          many1 (Sat isdecimal), lit_i ''_visitornumber'', any_of [34, 39], Star (none_of [62]),
          lit_i ''>'', Star (Sat isspace), Grp 1 (many1 (Sat isdecimal)), Star (Sat isspace),
          lit_i ''<'']"

definition UID_IN_MARKUP_PATTERN :: regex where
  \<comment> \<open>\<open>(SSD-\d+)_visitornumber\<close>\<close>
  "UID_IN_MARKUP_PATTERN =
     Seq (Grp 1 (Seq (lit ''SSD-'') (many1 (Sat isdecimal)))) (lit ''_visitornumber'')"

definition CAPACITY_PATTERN :: regex where
  \<comment> \<open>\<open>(?:max\.?\s*)?(?:Kapazit[a\xe4]t|von)\s*(\d+)\<close>, \<open>re.IGNORECASE\<close>\<close>
  "CAPACITY_PATTERN =
     seq [optional (seq [lit_i ''max'', optional (lit_i ''.''), Star (Sat isspace)]),
          Alt (seq [lit_i ''Kapazit'', any_of_i [97, 228], lit_i ''t'']) (lit_i ''von''),
          Star (Sat isspace), Grp 1 (many1 (Sat isdecimal))]"

definition extract_visible_text :: "(str \<rightharpoonup> str) \<Rightarrow> str \<Rightarrow> str" where
  \<comment> \<open>\<open>_extract_visible_text\<close>\<close>
  "extract_visible_text h html =
     (let text = re_sub (seq [lit ''<'', many1 (none_of [62]), lit ''>'']) (\<lambda>_. [32]) html;
          text = re_sub (many1 (Sat isspace)) (\<lambda>_. [32]) text
      in str_strip (unescape h text))"

definition extract_uid_from_html :: "str \<Rightarrow> str option" where
  \<comment> \<open>\<open>_extract_uid_from_html\<close>\<close>
  "extract_uid_from_html html =
     (case re_search UID_IN_MARKUP_PATTERN html of
        Some m \<Rightarrow> m_group m 1
      | None \<Rightarrow> None)"

definition int_group :: "match \<Rightarrow> nat \<Rightarrow> exn + int" where
  \<comment> \<open>\<open>int(m.group(n))\<close>\<close>
  "int_group m n =
     (case m_group m n of
        None \<Rightarrow> Inl TypeError
      | Some s \<Rightarrow> (case py_int s of None \<Rightarrow> Inl ValueError | Some i \<Rightarrow> Inr i))"

definition capacity_in :: "str \<Rightarrow> exn + int option" where
  \<comment> \<open>\<open>int(capacity_match.group(1)) if capacity_match else None\<close>\<close>
  "capacity_in text_slice =
     (case re_search CAPACITY_PATTERN text_slice of
        None \<Rightarrow> Inr None
      | Some capacity_match \<Rightarrow>
          (case int_group capacity_match 1 of Inl e \<Rightarrow> Inl e | Inr i \<Rightarrow> Inr (Some i)))"

definition parse_guest_count :: "(str \<rightharpoonup> str) \<Rightarrow> int \<Rightarrow> str \<Rightarrow> exn + GuestCount" where
  \<comment> \<open>\<open>_parse_guest_count\<close>; \<open>now\<close> is the reading of the clock.\<close>
  "parse_guest_count h now html =
     (let text = extract_visible_text h html in
      case (case re_search COUNT_ID_PATTERN html of
              Some html_match \<Rightarrow>
                (case int_group html_match 1 of
                   Inl e \<Rightarrow> Inl e
                 | Inr cnt \<Rightarrow>
                     (let start_idx = str_find text (py_str cnt)
                      in if start_idx \<noteq> - 1
                         then Inr (cnt, py_slice text start_idx (start_idx + 100))
                         else Inr (cnt, text)))
            | None \<Rightarrow>
                (case re_search COUNT_PATTERN text of
                   None \<Rightarrow> Inl (GuestCountError ''Could not find guest count in page'')
                 | Some text_match \<Rightarrow>
                     (case int_group text_match 1 of
                        Inl e \<Rightarrow> Inl e
                      | Inr cnt \<Rightarrow>
                          Inr (cnt, py_slice text (int (m_end text_match))
                                                  (int (m_end text_match) + 100))))) of
        Inl e \<Rightarrow> Inl e
      | Inr (cnt, text_slice) \<Rightarrow>
          (case capacity_in text_slice of
             Inl e \<Rightarrow> Inl e
           | Inr cap \<Rightarrow> Inr \<lparr>timestamp = now, count = cnt, capacity = cap\<rparr>))"

section \<open>Values decoded from JSON, \<open>float\<close> and \<open>int\<close>\<close>

text \<open>
  A binary64 number is an integer times a power of two, an infinity or a NaN;
  \<open>Finite m e\<close> stands for \<open>m * 2 ^ e\<close>. \<open>json.loads\<close> yields \<open>None\<close>, \<open>bool\<close>, \<open>int\<close>,
  \<open>float\<close>, \<open>str\<close>, \<open>list\<close> and \<open>dict\<close> values; a \<open>dict\<close> is given by its items.
\<close>

datatype pyfloat = Finite int int | PosInf | NegInf | NaN

datatype pyval =
    PNone
  | PBool bool
  | PInt int
  | PFloat pyfloat
  | PStr str
  | PList "pyval list"
  | PDict "(str \<times> pyval) list"

fun bit_length :: "nat \<Rightarrow> nat" where
  "bit_length n = (if n = 0 then 0 else Suc (bit_length (n div 2)))"

declare bit_length.simps [simp del]

definition scaled :: "nat \<Rightarrow> nat \<Rightarrow> int \<Rightarrow> nat \<times> nat" where
  \<comment> \<open>numerator and denominator of \<open>(N / D) / 2 ^ e\<close>\<close>
  "scaled N D e = (if 0 \<le> e then (N, D * 2 ^ nat e) else (N * 2 ^ nat (- e), D))"

definition round_binary64 :: "nat \<Rightarrow> nat \<Rightarrow> (nat \<times> int) option" where
  \<comment> \<open>The binary64 number nearest to \<open>N / D\<close>, ties to the even significand, as a
      significand of at most 53 bits and an exponent of at least \<open>-1074\<close>; \<open>None\<close> when
      the result is too large for a finite binary64 number.\<close>
  "round_binary64 N D =
     (if N = 0 then Some (0, 0)
      else
        (let e0 = int (bit_length N) - int (bit_length D) - 53;
             e1 = (if 2 ^ 53 \<le> fst (scaled N D e0) div snd (scaled N D e0) then e0 + 1 else e0);
             e = max e1 (- 1074);
             num = fst (scaled N D e);
             den = snd (scaled N D e);
             q = num div den;
             r = num mod den;
             n = (if den < 2 * r \<or> (2 * r = den \<and> odd q) then q + 1 else q)
         in if 0 \<le> e \<and> 2 ^ 1024 \<le> n * 2 ^ nat e then None else Some (n, e)))"

fun take_digits :: "bool \<Rightarrow> str \<Rightarrow> nat list \<times> str" where
  \<comment> \<open>The longest run of digits at the start, as digit values, and the rest. An
      underscore is skipped between two digits; the flag says that a digit precedes.\<close>
  "take_digits prev [] = ([], [])"
| "take_digits prev (x # xs) =
     (case decimal x of
        Some d \<Rightarrow> (let (ds, r) = take_digits True xs in (d # ds, r))
      | None \<Rightarrow>
          if x = 95 \<and> prev \<and> (case xs of [] \<Rightarrow> False | y # _ \<Rightarrow> decimal y \<noteq> None)
          then take_digits False xs
          else ([], x # xs))"

definition digits_value :: "nat list \<Rightarrow> nat" where
  "digits_value ds = foldl (\<lambda>acc d. 10 * acc + d) 0 ds"

definition ascii_lower :: "str \<Rightarrow> str" where
  "ascii_lower s = map (\<lambda>c. if 65 \<le> c \<and> c \<le> 90 then c + 32 else c) s"

definition float_of_decimal :: "bool \<Rightarrow> nat \<Rightarrow> int \<Rightarrow> pyfloat" where
  \<comment> \<open>the binary64 number nearest to \<open>m * 10 ^ k\<close>, negated when the flag is set\<close>
  "float_of_decimal neg m k =
     (case (if 0 \<le> k then round_binary64 (m * 10 ^ nat k) 1
            else round_binary64 m (10 ^ nat (- k))) of
        None \<Rightarrow> (if neg then NegInf else PosInf)
      | Some (n, e) \<Rightarrow> Finite (if neg then - int n else int n) e)"

definition float_of_str :: "str \<Rightarrow> pyfloat option" where
  \<comment> \<open>\<open>float(s)\<close> for a \<open>str\<close>: surrounding whitespace is dropped; one sign; then
      \<open>inf\<close>, \<open>infinity\<close> or \<open>nan\<close> in any case, or digits with an optional point and an
      optional exponent, at least one digit before or after the point. \<open>None\<close> is
      \<open>ValueError\<close>.\<close>
  "float_of_str s =
     (let t = strip_with numeric_space s;
          neg = (case t of [] \<Rightarrow> False | x # _ \<Rightarrow> x = 45);
          t = (case t of [] \<Rightarrow> [] | x # xs \<Rightarrow> if x = 43 \<or> x = 45 then xs else x # xs)
      in if ascii_lower t = cps ''inf'' \<or> ascii_lower t = cps ''infinity''
         then Some (if neg then NegInf else PosInf)
         else if ascii_lower t = cps ''nan'' then Some NaN
         else
           (let (ip, r) = take_digits False t;
                (fp, r) = (case r of [] \<Rightarrow> ([], r)
                           | x # xs \<Rightarrow> if x = 46 then take_digits False xs else ([], r))
            in if ip = [] \<and> fp = [] then None
               else
                 (case r of
                    [] \<Rightarrow> Some (float_of_decimal neg (digits_value (ip @ fp)) (- int (length fp)))
                  | x # xs \<Rightarrow>
                      if x = 101 \<or> x = 69 then
                        (let eneg = (case xs of [] \<Rightarrow> False | y # _ \<Rightarrow> y = 45);
                             xs = (case xs of [] \<Rightarrow> []
                                   | y # ys \<Rightarrow> if y = 43 \<or> y = 45 then ys else y # ys);
                             (ed, r) = take_digits False xs
                         in if ed = [] \<or> r \<noteq> [] then None
                            else Some (float_of_decimal neg (digits_value (ip @ fp))
                                        ((if eneg then - int (digits_value ed)
                                          else int (digits_value ed)) - int (length fp))))
                      else None)))"

definition py_float :: "pyval \<Rightarrow> pyfloat option" where
  \<comment> \<open>\<open>float(v)\<close>; \<open>None\<close> when it raises (\<open>TypeError\<close>, \<open>ValueError\<close>, \<open>OverflowError\<close>).\<close>
  "py_float v =
     (case v of
        PNone \<Rightarrow> None
      | PBool b \<Rightarrow> Some (Finite (if b then 1 else 0) 0)
      | PInt i \<Rightarrow>
          (case round_binary64 (nat \<bar>i\<bar>) 1 of
             None \<Rightarrow> None
           | Some (n, e) \<Rightarrow> Some (Finite (if i < 0 then - int n else int n) e))
      | PFloat f \<Rightarrow> Some f
      | PStr s \<Rightarrow> float_of_str s
      | PList _ \<Rightarrow> None
      | PDict _ \<Rightarrow> None)"

definition int_of_float :: "pyfloat \<Rightarrow> int option" where
  \<comment> \<open>\<open>int(f)\<close>: truncation towards zero; \<open>None\<close> when it raises, on an infinity
      (\<open>OverflowError\<close>) and on a NaN (\<open>ValueError\<close>).\<close>
  "int_of_float f =
     (case f of
        Finite m e \<Rightarrow>
          Some (if 0 \<le> e then m * 2 ^ nat e
                else if m < 0 then - (\<bar>m\<bar> div 2 ^ nat (- e)) else m div 2 ^ nat (- e))
      | PosInf \<Rightarrow> None
      | NegInf \<Rightarrow> None
      | NaN \<Rightarrow> None)"

definition int_float :: "pyval \<Rightarrow> int option" where
  \<comment> \<open>\<open>int(float(v))\<close>; \<open>None\<close> when either conversion raises.\<close>
  "int_float v = (case py_float v of None \<Rightarrow> None | Some f \<Rightarrow> int_of_float f)"

section \<open>\<open>app/scraper.py\<close>: the WebSocket fallback\<close>

text \<open>
  What the outside world does is given by an environment: the outcome of the HTTP
  request, whether the debug file can be written, whether the WebSocket connects and
  takes the request, and the frames it then delivers, in order. A frame is a text with
  the result of \<open>json.loads\<close> on it, or the failure of \<open>recv\<close>: the ten-second wait
  running out or the connection breaking; when no frame is left the wait runs out.
  Each function returns its result together with the actions it performed, in order.
\<close>

datatype frame =
    Recv_timeout
  | Recv_closed
  | Bad_json
  | Json pyval

datatype http_outcome =
    Transport_error
  | Response nat str

datatype action =
    Http_get
  | Client_close
  | Write_dump str
  | Ws_connect
  | Ws_send str
  | Ws_recv nat
  | Ws_close

record env =
  html5 :: "str \<rightharpoonup> str"
  clock :: int
  httpx_installed :: bool
  websockets_installed :: bool
  client_given :: bool
  http_get :: http_outcome
  dump_ok :: bool
  ws_connect_ok :: bool
  ws_send_ok :: bool
  ws_frames :: "frame list"

definition dict_get :: "pyval \<Rightarrow> string \<Rightarrow> pyval" where
  \<comment> \<open>\<open>item.get(key)\<close> on a \<open>dict\<close>\<close>
  "dict_get item key =
     (case item of
        PDict kvs \<Rightarrow> (case map_of kvs (cps key) of None \<Rightarrow> PNone | Some v \<Rightarrow> v)
      | _ \<Rightarrow> PNone)"

definition is_dict :: "pyval \<Rightarrow> bool" where
  "is_dict v = (case v of PDict _ \<Rightarrow> True | _ \<Rightarrow> False)"

definition record_result :: "pyval \<Rightarrow> (int \<times> int option) option" where
  \<comment> \<open>the body of the \<open>if\<close> in \<open>_recv_once\<close>, for a record with the wanted \<open>uid\<close>\<close>
  "record_result item =
     (let current = dict_get item ''currentfill'';
          maxspace = dict_get item ''maxspace''
      in case int_float current of
           None \<Rightarrow> None
         | Some count_val \<Rightarrow>
             Some (count_val, if maxspace \<noteq> PNone then int_float maxspace else None))"

fun scan_payload :: "str \<Rightarrow> pyval list \<Rightarrow> (int \<times> int option) option" where
  \<comment> \<open>\<open>for item in payload\<close>\<close>
  "scan_payload uid [] = None"
| "scan_payload uid (item # rest) =
     (if is_dict item \<and> dict_get item ''uid'' = PStr uid then record_result item
      else scan_payload uid rest)"

definition recv_once :: "str \<Rightarrow> frame \<Rightarrow> exn + (int \<times> int option) option" where
  \<comment> \<open>\<open>_recv_once\<close>\<close>
  "recv_once uid fr =
     (case fr of
        Recv_timeout \<Rightarrow> Inl TimeoutError
      | Recv_closed \<Rightarrow> Inl ConnectionClosed
      | Bad_json \<Rightarrow> Inl JSONDecodeError
      | Json payload \<Rightarrow>
          (case payload of PList items \<Rightarrow> Inr (scan_payload uid items) | _ \<Rightarrow> Inr None))"

definition next_frame :: "frame list \<Rightarrow> frame" where
  "next_frame fs = (case fs of [] \<Rightarrow> Recv_timeout | fr # _ \<Rightarrow> fr)"

fun recv_more :: "str \<Rightarrow> nat \<Rightarrow> frame list \<Rightarrow> (exn + (int \<times> int option) option) \<times> action list" where
  \<comment> \<open>\<open>for _ in range(n)\<close> around \<open>_recv_once\<close>\<close>
  "recv_more uid 0 fs = (Inr None, [])"
| "recv_more uid (Suc n) fs =
     (case recv_once uid (next_frame fs) of
        Inl e \<Rightarrow> (Inl e, [Ws_recv 10])
      | Inr (Some result) \<Rightarrow> (Inr (Some result), [Ws_recv 10])
      | Inr None \<Rightarrow> (let (res, acts) = recv_more uid n (tl fs) in (res, Ws_recv 10 # acts)))"

definition ws_session :: "str \<Rightarrow> frame list \<Rightarrow> (exn + (int \<times> int option) option) \<times> action list" where
  \<comment> \<open>the body of \<open>async with websockets.connect(...) as ws\<close>, after the request is sent\<close>
  "ws_session uid fs =
     (case recv_once uid (next_frame fs) of
        Inl e \<Rightarrow> (Inl e, [Ws_recv 10])
      | Inr (Some result) \<Rightarrow> (Inr (Some result), [Ws_recv 10])
      | Inr None \<Rightarrow> (let (res, acts) = recv_more uid 2 (tl fs) in (res, Ws_recv 10 # acts)))"

definition fetch_count_via_websocket :: "env \<Rightarrow> str \<Rightarrow> (exn + int \<times> int option) \<times> action list" where
  \<comment> \<open>\<open>_fetch_count_via_websocket\<close>\<close>
  "fetch_count_via_websocket env uid =
     (if \<not> websockets_installed env then
        (Inl (GuestCountError
               ''WebSocket fallback requires the 'websockets' package. Install project dependencies.''),
         [])
      else if \<not> ws_connect_ok env then
        (Inl (GuestCountError ''Failed to fetch guest count via WebSocket''), [Ws_connect])
      else if \<not> ws_send_ok env then
        (Inl (GuestCountError ''Failed to fetch guest count via WebSocket''),
         [Ws_connect, Ws_send (cps ''all''), Ws_close])
      else
        (case ws_session uid (ws_frames env) of
           (Inl e, acts) \<Rightarrow>
             (Inl (GuestCountError ''Failed to fetch guest count via WebSocket''),
              [Ws_connect, Ws_send (cps ''all'')] @ acts @ [Ws_close])
         | (Inr (Some result), acts) \<Rightarrow>
             (Inr result, [Ws_connect, Ws_send (cps ''all'')] @ acts @ [Ws_close])
         | (Inr None, acts) \<Rightarrow>
             (Inl (GuestCountError ''Could not find guest count in WebSocket stream''),
              [Ws_connect, Ws_send (cps ''all'')] @ acts @ [Ws_close])))"

section \<open>\<open>app/scraper.py\<close>: the orchestrator\<close>

definition maybe_dump_html_for_debug :: "env \<Rightarrow> str \<Rightarrow> action list" where
  \<comment> \<open>\<open>_maybe_dump_html_for_debug\<close>: the file is written, or the failure to write it
      is caught and logged; the function returns normally in both cases.\<close>
  "maybe_dump_html_for_debug env html = (if dump_ok env then [Write_dump html] else [])"

definition closing :: "env \<Rightarrow> action list" where
  \<comment> \<open>\<open>finally: if close_client: await async_client.aclose()\<close>\<close>
  "closing env = (if client_given env then [] else [Client_close])"

definition fetch_guest_count_async :: "env \<Rightarrow> (exn + GuestCount) \<times> action list" where
  "fetch_guest_count_async env =
     (if \<not> httpx_installed env then
        (Inl (GuestCountError
               (''The 'httpx' package is required to fetch guest counts. Install the project '' @
                ''dependencies to enable network scraping.'')),
         [])
      else
        (case http_get env of
           Transport_error \<Rightarrow>
             (Inl (GuestCountError ''Failed to fetch guest count''), Http_get # closing env)
         | Response status html \<Rightarrow>
             if \<not> (200 \<le> status \<and> status < 300) then
               (Inl (GuestCountError ''Failed to fetch guest count''), Http_get # closing env)
             else
               (case parse_guest_count (html5 env) (clock env) html of
                  Inr guest_count \<Rightarrow> (Inr guest_count, Http_get # closing env)
                | Inl (GuestCountError msg) \<Rightarrow>
                    (case extract_uid_from_html html of
                       None \<Rightarrow>
                         (Inl (GuestCountError msg),
                          Http_get # maybe_dump_html_for_debug env html @ closing env)
                     | Some uid \<Rightarrow>
                         if uid = [] then
                           (Inl (GuestCountError msg),
                            Http_get # maybe_dump_html_for_debug env html @ closing env)
                         else
                           (case fetch_count_via_websocket env uid of
                              (Inl e, acts) \<Rightarrow> (Inl e, Http_get # acts @ closing env)
                            | (Inr (cnt, cap), acts) \<Rightarrow>
                                (Inr \<lparr>timestamp = clock env, count = cnt, capacity = cap\<rparr>,
                                 Http_get # acts @ closing env)))
                | Inl e \<Rightarrow> (Inl e, Http_get # closing env))))"

section \<open>Notions used in the properties\<close>

definition frame_at :: "frame list \<Rightarrow> nat \<Rightarrow> frame" where
  \<comment> \<open>what the call number \<open>i\<close> of \<open>recv\<close> delivers, counting from 0\<close>
  "frame_at fs i = next_frame (drop i fs)"

definition aborting :: "frame \<Rightarrow> bool" where
  \<comment> \<open>the wait ran out, the connection broke, or the text is not JSON\<close>
  "aborting fr = (case fr of Json _ \<Rightarrow> False | _ \<Rightarrow> True)"

fun scan_payload_spec :: "str \<Rightarrow> pyval list \<Rightarrow> (int \<times> int option) option" where
  \<comment> \<open>The scan of a frame as the claim about \<open>_recv_once\<close> words it: a record whose
      \<open>currentfill\<close> does not convert counts as not matching, and the scan goes on with
      the remaining records.\<close>
  "scan_payload_spec uid [] = None"
| "scan_payload_spec uid (item # rest) =
     (if is_dict item \<and> dict_get item ''uid'' = PStr uid
         \<and> int_float (dict_get item ''currentfill'') \<noteq> None
      then record_result item
      else scan_payload_spec uid rest)"

definition uid_token :: "str \<Rightarrow> bool" where
  \<comment> \<open>\<open>SSD-\<close> followed by at least one digit and nothing else\<close>
  "uid_token u \<longleftrightarrow> take 4 u = cps ''SSD-'' \<and> drop 4 u \<noteq> [] \<and> list_all isdecimal (drop 4 u)"

definition uid_at :: "str \<Rightarrow> nat \<Rightarrow> str \<Rightarrow> bool" where
  \<comment> \<open>at position \<open>k\<close> of the document stands the token \<open>u\<close>, directly followed by
      \<open>_visitornumber\<close>\<close>
  "uid_at html k u \<longleftrightarrow>
     uid_token u \<and> k \<le> length html \<and> prefix (u @ cps ''_visitornumber'') (drop k html)"

definition digit_run :: "str \<Rightarrow> bool" where
  \<comment> \<open>a non-empty run of decimal digits\<close>
  "digit_run ds \<longleftrightarrow> ds \<noteq> [] \<and> list_all isdecimal ds"

fun no_groups :: "regex \<Rightarrow> bool" where
  "no_groups (Sat p) = True"
| "no_groups Eps = True"
| "no_groups (Seq a b) = (no_groups a \<and> no_groups b)"
| "no_groups (Alt a b) = (no_groups a \<and> no_groups b)"
| "no_groups (Star r) = no_groups r"
| "no_groups (Grp n r) = False"

definition digit_group :: "regex \<Rightarrow> bool" where
  \<comment> \<open>every match of the pattern captures exactly group 1, and that is a digit run\<close>
  "digit_group r \<longleftrightarrow>
     (\<forall>s s' g'. (s', g') \<in> set (ms r s []) \<longrightarrow> (\<exists>ds. digit_run ds \<and> g' = [(1, ds)]))"

section \<open>Example inputs\<close>

definition html5_excerpt :: "str \<rightharpoonup> str" where
  \<comment> \<open>a few entries of \<open>html.entities.html5\<close>\<close>
  "html5_excerpt = map_of [(cps ''amp;'', [38]), (cps ''amp'', [38]), (cps ''lt;'', [60]),
     (cps ''gt;'', [62]), (cps ''quot;'', [34]), (cps ''nbsp;'', [160]),
     (cps ''auml;'', [228]), (cps ''Auml;'', [196])]"

definition feed_record :: "string \<Rightarrow> pyval \<Rightarrow> pyval \<Rightarrow> pyval" where
  "feed_record uid current maxspace =
     PDict [(cps ''uid'', PStr (cps uid)), (cps ''currentfill'', current),
            (cps ''maxspace'', maxspace)]"

definition example_env :: env where
  \<comment> \<open>The page has neither a count nor an identifier; the feed names the pool
      \<open>SSD-4\<close> in the second of three frames.\<close>
  "example_env =
     \<lparr>html5 = html5_excerpt, clock = 1700000000, httpx_installed = True,
      websockets_installed = True, client_given = False,
      http_get = Response 200 (cps ''<html><body><div>Keine Angaben</div></body></html>''),
      dump_ok = True, ws_connect_ok = True, ws_send_ok = True,
      ws_frames =
        [Json (PList [feed_record ''SSD-7'' (PStr (cps ''3'')) (PStr (cps ''50''))]),
         Json (PList [feed_record ''SSD-7'' (PStr (cps ''3'')) (PStr (cps ''50'')),
                      feed_record ''SSD-4'' (PStr (cps ''42'')) (PStr (cps ''120''))]),
         Json (PList [])]\<rparr>"

definition two_records :: "pyval list" where
  \<comment> \<open>two records of the pool: the first has no usable count, the second has one\<close>
  "two_records =
     [feed_record ''SSD-4'' (PStr (cps ''n/a'')) PNone,
      feed_record ''SSD-4'' (PStr (cps ''5'')) (PStr (cps ''10''))]"

definition skipping_frames :: "frame list" where
  \<comment> \<open>JSON that is no array, an array without the pool, then a text that is not JSON\<close>
  "skipping_frames =
     [Json (PDict [(cps ''status'', PStr (cps ''ok''))]),
      Json (PList [feed_record ''SSD-7'' (PStr (cps ''3'')) (PStr (cps ''50''))]),
      Bad_json]"

definition html_with_id :: str where
  \<comment> \<open>a table row with the visitor cell of pool \<open>SSD-4\<close> and the capacity beside it\<close>
  "html_with_id =
     cps ''<tr><td id='SSD-4_visitornumber' class='cell'>68</td><td>Kapazit'' @ [228] @
     cps ''t 120</td></tr>''"

definition html_text_only :: str where
  "html_text_only = cps ''<div>Anzahl G'' @ [228] @ cps ''ste 73 von 250</div>''"


section \<open>Evaluation of \<open>int(float(v))\<close>\<close>

lemma bit_length_0: "bit_length 0 = 0"
  by (simp add: bit_length.simps)

lemma bit_length_Suc0: "bit_length (Suc 0) = 1"
  by (simp add: bit_length.simps[of "Suc 0"] bit_length_0)

lemma bit_length_One: "bit_length (numeral Num.One) = 1"
  by (simp add: bit_length_Suc0)

lemma bit_length_Bit0: "bit_length (numeral (Num.Bit0 n)) = Suc (bit_length (numeral n))"
  by (subst bit_length.simps) simp

lemma bit_length_Bit1: "bit_length (numeral (Num.Bit1 n)) = Suc (bit_length (numeral n))"
  by (subst bit_length.simps) simp

lemmas float_eval = cps_def isspace_def numeric_space_def strip_with_def decimal_def
  decimal_zeros_def digits_value_def ascii_lower_def float_of_str_def float_of_decimal_def
  round_binary64_def scaled_def int_of_float_def int_float_def py_float_def
  bit_length_0 bit_length_Suc0 bit_length_One bit_length_Bit0 bit_length_Bit1 Let_def

lemma int_float_examples:
  "int_float (PStr (cps ''42'')) = Some 42"
  "int_float (PStr (cps ''120'')) = Some 120"
  "int_float (PStr (cps ''5'')) = Some 5"
  "int_float (PStr (cps ''10'')) = Some 10"
  "int_float (PStr (cps ''68.9'')) = Some 68"
  "int_float (PStr (cps '' -12.7e1 '')) = Some (- 127)"
  "int_float (PStr (cps ''n/a'')) = None"
  "int_float (PInt 250) = Some 250"
  "int_float (PInt 9007199254740993) = Some 9007199254740992"
  "int_float (PBool True) = Some 1"
  "int_float PNone = None"
  "int_float (PFloat NaN) = None"
  by (simp_all add: float_eval cong: let_weak_cong)

section \<open>The matcher: what a match is\<close>

lemma in_ms_Sat: "(s', g') \<in> set (ms (Sat p) s g) \<longleftrightarrow> (\<exists>x. s = x # s' \<and> p x \<and> g' = g)"
  by (cases s) (auto simp: ms.simps(1))

lemma in_ms_Eps: "(s', g') \<in> set (ms Eps s g) \<longleftrightarrow> s' = s \<and> g' = g"
  by (auto simp: ms.simps(2))

lemma in_ms_Seq:
  "(s', g') \<in> set (ms (Seq a b) s g) \<longleftrightarrow>
     (\<exists>s1 g1. (s1, g1) \<in> set (ms a s g) \<and> (s', g') \<in> set (ms b s1 g1))"
  by (auto simp: ms.simps(3))

lemma in_ms_Alt:
  "(s', g') \<in> set (ms (Alt a b) s g) \<longleftrightarrow>
     (s', g') \<in> set (ms a s g) \<or> (s', g') \<in> set (ms b s g)"
  by (auto simp: ms.simps(4))

lemma in_ms_Star:
  "(s', g') \<in> set (ms (Star r) s g) \<longleftrightarrow>
     (s' = s \<and> g' = g) \<or>
     (\<exists>s1 g1. (s1, g1) \<in> set (ms r s g) \<and> length s1 < length s \<and>
        (s', g') \<in> set (ms (Star r) s1 g1))"
  by (subst ms.simps(5)) (auto split: if_splits)

lemma in_ms_Grp:
  "(s', g') \<in> set (ms (Grp n r) s g) \<longleftrightarrow>
     (\<exists>g1. (s', g1) \<in> set (ms r s g) \<and> g' = (n, take (length s - length s') s) # g1)"
  by (auto simp: ms.simps(6))

lemma ms_Star_Sat_Nil: "ms (Star (Sat p)) [] g = [([], g)]"
  by (simp add: ms.simps(5)[of "Sat p" "[]"] ms.simps(1))

lemma ms_Star_Sat_Cons:
  "ms (Star (Sat p)) (x # xs) g =
     (if p x then ms (Star (Sat p)) xs g else []) @ [(x # xs, g)]"
  by (simp add: ms.simps(5)[of "Sat p" "x # xs"] ms.simps(1))

lemma in_ms_Star_Sat:
  "(s', g') \<in> set (ms (Star (Sat p)) s g) \<longleftrightarrow> g' = g \<and> (\<exists>u. s = u @ s' \<and> list_all p u)"
proof (induction s)
  case Nil
  show ?case by (auto simp: ms_Star_Sat_Nil)
next
  case (Cons x xs)
  show ?case
  proof (cases "p x")
    case True
    have "(\<exists>u. x # xs = u @ s' \<and> list_all p u) \<longleftrightarrow>
          s' = x # xs \<or> (\<exists>u. xs = u @ s' \<and> list_all p u)"
      using True by (auto simp: Cons_eq_append_conv)
    then show ?thesis
      using True Cons.IH by (auto simp only: ms_Star_Sat_Cons if_True set_append set_simps)
  next
    case False
    have "(\<exists>u. x # xs = u @ s' \<and> list_all p u) \<longleftrightarrow> s' = x # xs"
      using False by (auto simp: Cons_eq_append_conv)
    then show ?thesis
      using False by (auto simp only: ms_Star_Sat_Cons if_False set_append set_simps)
  qed
qed

lemma in_ms_many1_Sat:
  "(s', g') \<in> set (ms (many1 (Sat p)) s g) \<longleftrightarrow>
     g' = g \<and> (\<exists>u. u \<noteq> [] \<and> s = u @ s' \<and> list_all p u)"
proof -
  have "(s', g') \<in> set (ms (many1 (Sat p)) s g) \<longleftrightarrow>
        (\<exists>x s1. s = x # s1 \<and> p x \<and> (s', g') \<in> set (ms (Star (Sat p)) s1 g))"
    unfolding many1_def in_ms_Seq in_ms_Sat by blast
  also have "\<dots> \<longleftrightarrow> g' = g \<and> (\<exists>x u. s = x # u @ s' \<and> p x \<and> list_all p u)"
    unfolding in_ms_Star_Sat by blast
  also have "\<dots> \<longleftrightarrow> g' = g \<and> (\<exists>u. u \<noteq> [] \<and> s = u @ s' \<and> list_all p u)"
  proof -
    have "(\<exists>x u. s = x # u @ s' \<and> p x \<and> list_all p u) \<longleftrightarrow>
          (\<exists>u. u \<noteq> [] \<and> s = u @ s' \<and> list_all p u)"
    proof
      assume "\<exists>x u. s = x # u @ s' \<and> p x \<and> list_all p u"
      then obtain x u where "s = (x # u) @ s'" "list_all p (x # u)" by auto
      then show "\<exists>u. u \<noteq> [] \<and> s = u @ s' \<and> list_all p u" by blast
    next
      assume "\<exists>u. u \<noteq> [] \<and> s = u @ s' \<and> list_all p u"
      then obtain u where u: "u \<noteq> []" "s = u @ s'" "list_all p u" by blast
      then obtain x v where "u = x # v" by (cases u) auto
      with u show "\<exists>x u. s = x # u @ s' \<and> p x \<and> list_all p u" by auto
    qed
    then show ?thesis by simp
  qed
  finally show ?thesis .
qed

lemma in_ms_optional:
  "(s', g') \<in> set (ms (optional r) s g) \<longleftrightarrow>
     (s', g') \<in> set (ms r s g) \<or> (s' = s \<and> g' = g)"
  by (auto simp: optional_def in_ms_Alt in_ms_Eps)

lemma seq_Nil: "seq [] = Eps"
  by (simp add: seq_def)

lemma seq_Cons: "seq (r # rs) = Seq r (seq rs)"
  by (simp add: seq_def)

lemma in_ms_seq_Sat:
  "(s', g') \<in> set (ms (seq (map Sat ps)) s g) \<longleftrightarrow>
     g' = g \<and> (\<exists>u. s = u @ s' \<and> list_all2 (\<lambda>p x. p x) ps u)"
proof (induction ps arbitrary: s)
  case Nil
  show ?case by (auto simp: seq_Nil in_ms_Eps)
next
  case (Cons p ps)
  have "(s', g') \<in> set (ms (seq (map Sat (p # ps))) s g) \<longleftrightarrow>
        (\<exists>x s1. s = x # s1 \<and> p x \<and> (s', g') \<in> set (ms (seq (map Sat ps)) s1 g))"
    unfolding list.map seq_Cons in_ms_Seq in_ms_Sat by blast
  also have "\<dots> \<longleftrightarrow> g' = g \<and> (\<exists>x u. s = x # u @ s' \<and> p x \<and> list_all2 (\<lambda>p x. p x) ps u)"
    unfolding Cons.IH by blast
  also have "\<dots> \<longleftrightarrow> g' = g \<and> (\<exists>u. s = u @ s' \<and> list_all2 (\<lambda>p x. p x) (p # ps) u)"
    by (auto simp: list_all2_Cons1)
  finally show ?case .
qed

lemma in_ms_lit:
  "(s', g') \<in> set (ms (lit w) s g) \<longleftrightarrow> g' = g \<and> s = cps w @ s'"
proof -
  have "lit w = seq (map Sat (map (\<lambda>ch x. x = of_char ch) w))"
    by (simp add: lit_def comp_def)
  moreover have "list_all2 (\<lambda>p x. p x) (map (\<lambda>ch x. x = of_char ch) w) u \<longleftrightarrow> u = cps w" for u
    by (induction w arbitrary: u) (auto simp: cps_def list_all2_Cons1)
  ultimately show ?thesis
    by (simp only: in_ms_seq_Sat) blast
qed

lemma in_ms_lit_i:
  "(s', g') \<in> set (ms (lit_i w) s g) \<longleftrightarrow>
     g' = g \<and> (\<exists>u. s = u @ s' \<and> list_all2 ic (cps w) u)"
proof -
  have "lit_i w = seq (map Sat (map (\<lambda>ch. ic (of_char ch)) w))"
    by (simp add: lit_i_def comp_def)
  moreover have "list_all2 (\<lambda>p x. p x) (map (\<lambda>ch. ic (of_char ch)) w) u \<longleftrightarrow>
      list_all2 ic (cps w) u" for u
    by (simp add: cps_def list_all2_map1)
  ultimately show ?thesis
    by (simp only: in_ms_seq_Sat)
qed

text \<open>The search\<close>

lemma search_from_None:
  "search_from r i s = None \<longleftrightarrow> (\<forall>k \<le> length s. ms r (drop k s) [] = [])"
proof (induction s arbitrary: i)
  case Nil
  show ?case by (auto simp: search_from.simps split: list.splits)
next
  case (Cons x xs)
  have "(\<forall>k \<le> length (x # xs). ms r (drop k (x # xs)) [] = []) \<longleftrightarrow>
        ms r (x # xs) [] = [] \<and> (\<forall>k \<le> length xs. ms r (drop k xs) [] = [])"
  proof
    assume a: "\<forall>k \<le> length (x # xs). ms r (drop k (x # xs)) [] = []"
    have "ms r (drop 0 (x # xs)) [] = []" using a by blast
    moreover have "ms r (drop k xs) [] = []" if "k \<le> length xs" for k
      using a[rule_format, of "Suc k"] that by simp
    ultimately show "ms r (x # xs) [] = [] \<and> (\<forall>k \<le> length xs. ms r (drop k xs) [] = [])"
      by simp
  next
    assume a: "ms r (x # xs) [] = [] \<and> (\<forall>k \<le> length xs. ms r (drop k xs) [] = [])"
    show "\<forall>k \<le> length (x # xs). ms r (drop k (x # xs)) [] = []"
    proof (intro allI impI)
      fix k assume "k \<le> length (x # xs)"
      then show "ms r (drop k (x # xs)) [] = []"
        using a by (cases k) auto
    qed
  qed
  then show ?case
    using Cons.IH[of "Suc i"] by (auto simp: search_from.simps[of r i "x # xs"] split: list.splits)
qed

lemma search_from_Some:
  assumes "search_from r i s = Some m"
  shows "\<exists>k rest g alts. k \<le> length s \<and> (\<forall>j<k. ms r (drop j s) [] = []) \<and>
           ms r (drop k s) [] = (rest, g) # alts \<and>
           m = \<lparr>m_start = i + k, m_end = i + k + (length (drop k s) - length rest),
                m_groups = g\<rparr>"
  using assms
proof (induction s arbitrary: i)
  case Nil
  then show ?case by (auto simp: search_from.simps split: list.splits)
next
  case (Cons x xs)
  show ?case
  proof (cases "ms r (x # xs) []")
    case Nil
    with Cons.prems have "search_from r (Suc i) xs = Some m"
      by (simp add: search_from.simps[of r i "x # xs"])
    from Cons.IH[OF this] obtain k rest g alts where k: "k \<le> length xs"
      "\<forall>j<k. ms r (drop j xs) [] = []" "ms r (drop k xs) [] = (rest, g) # alts"
      "m = \<lparr>m_start = Suc i + k, m_end = Suc i + k + (length (drop k xs) - length rest),
            m_groups = g\<rparr>"
      by blast
    have "\<forall>j<Suc k. ms r (drop j (x # xs)) [] = []"
    proof (intro allI impI)
      fix j assume "j < Suc k"
      then show "ms r (drop j (x # xs)) [] = []"
        using Nil k(2) by (cases j) auto
    qed
    then show ?thesis
      using k by (intro exI[of _ "Suc k"] exI[of _ rest] exI[of _ g] exI[of _ alts]) simp
  next
    case (Cons a alts)
    obtain rest g where "a = (rest, g)" by (cases a)
    with Cons Cons.prems show ?thesis
      by (intro exI[of _ 0] exI[of _ rest] exI[of _ g] exI[of _ alts])
         (auto simp: search_from.simps[of r i "x # xs"])
  qed
qed

section \<open>Identifier recovery\<close>

lemma uid_token_iff:
  "uid_token u \<longleftrightarrow> (\<exists>ds. u = cps ''SSD-'' @ ds \<and> ds \<noteq> [] \<and> list_all isdecimal ds)"
proof
  assume "uid_token u"
  then have "u = cps ''SSD-'' @ drop 4 u \<and> drop 4 u \<noteq> [] \<and> list_all isdecimal (drop 4 u)"
    unfolding uid_token_def by (metis append_take_drop_id)
  then show "\<exists>ds. u = cps ''SSD-'' @ ds \<and> ds \<noteq> [] \<and> list_all isdecimal ds"
    by blast
next
  assume "\<exists>ds. u = cps ''SSD-'' @ ds \<and> ds \<noteq> [] \<and> list_all isdecimal ds"
  then show "uid_token u"
    by (auto simp: uid_token_def cps_def)
qed

lemma in_ms_UID:
  "(s', g') \<in> set (ms UID_IN_MARKUP_PATTERN s g) \<longleftrightarrow>
     (\<exists>u. uid_token u \<and> s = u @ cps ''_visitornumber'' @ s' \<and> g' = (1, u) # g)"
proof
  assume "(s', g') \<in> set (ms UID_IN_MARKUP_PATTERN s g)"
  then obtain s1 ds where s: "s = cps ''SSD-'' @ ds @ s1" "ds \<noteq> []" "list_all isdecimal ds"
      "s1 = cps ''_visitornumber'' @ s'" "g' = (1, take (length s - length s1) s) # g"
    unfolding UID_IN_MARKUP_PATTERN_def in_ms_Seq in_ms_Grp in_ms_lit in_ms_many1_Sat
    by auto
  have "take (length s - length s1) s = cps ''SSD-'' @ ds"
    using s(1) by simp
  then show "\<exists>u. uid_token u \<and> s = u @ cps ''_visitornumber'' @ s' \<and> g' = (1, u) # g"
    using s uid_token_iff by auto
next
  assume "\<exists>u. uid_token u \<and> s = u @ cps ''_visitornumber'' @ s' \<and> g' = (1, u) # g"
  then obtain ds where s: "s = (cps ''SSD-'' @ ds) @ cps ''_visitornumber'' @ s'"
      "ds \<noteq> []" "list_all isdecimal ds" "g' = (1, cps ''SSD-'' @ ds) # g"
    using uid_token_iff by auto
  have "take (length s - length (cps ''_visitornumber'' @ s')) s = cps ''SSD-'' @ ds"
    using s(1) by simp
  then show "(s', g') \<in> set (ms UID_IN_MARKUP_PATTERN s g)"
    unfolding UID_IN_MARKUP_PATTERN_def in_ms_Seq in_ms_Grp in_ms_lit in_ms_many1_Sat
    using s by (intro exI[of _ "cps ''_visitornumber'' @ s'"] exI[of _ "(1, cps ''SSD-'' @ ds) # g"])
      auto
qed

lemma uid_at_iff_ms:
  assumes "k \<le> length html"
  shows "uid_at html k u \<longleftrightarrow>
     (\<exists>s'. (s', [(1, u)]) \<in> set (ms UID_IN_MARKUP_PATTERN (drop k html) []))"
  unfolding in_ms_UID uid_at_def using assms by (auto simp: prefix_def)

text \<open>
  C6. \<open>_extract_uid_from_html\<close> searches the raw HTML. It returns \<open>None\<close> exactly when no
  token \<open>SSD-\<close> followed by digits stands directly before \<open>_visitornumber\<close> anywhere in
  the document; otherwise it returns such a token, the one at the leftmost position that
  has one.
\<close>

theorem extract_uid_first_occurrence:
  "(extract_uid_from_html html = None \<longleftrightarrow> (\<forall>k u. \<not> uid_at html k u))
   \<and> (\<forall>u. extract_uid_from_html html = Some u \<longrightarrow>
         (\<exists>k. uid_at html k u \<and> (\<forall>j u'. uid_at html j u' \<longrightarrow> k \<le> j)))"
proof (intro conjI allI impI)
  show "extract_uid_from_html html = None \<longleftrightarrow> (\<forall>k u. \<not> uid_at html k u)"
  proof (cases "re_search UID_IN_MARKUP_PATTERN html")
    case None
    then have none: "\<forall>k \<le> length html. ms UID_IN_MARKUP_PATTERN (drop k html) [] = []"
      by (simp add: re_search_def search_from_None)
    have "\<not> uid_at html k u" for k u
    proof (cases "k \<le> length html")
      case True
      then show ?thesis
        using none uid_at_iff_ms[OF True, of u] by auto
    next
      case False
      then show ?thesis by (simp add: uid_at_def)
    qed
    then show ?thesis
      using None by (simp add: extract_uid_from_html_def)
  next
    case (Some m)
    from search_from_Some[OF Some[unfolded re_search_def]]
    obtain k rest g alts where k: "k \<le> length html"
        "ms UID_IN_MARKUP_PATTERN (drop k html) [] = (rest, g) # alts" "m_groups m = g"
      by auto
    then have "(rest, g) \<in> set (ms UID_IN_MARKUP_PATTERN (drop k html) [])"
      by simp
    then obtain u where u: "uid_token u" "drop k html = u @ cps ''_visitornumber'' @ rest"
        "g = [(1, u)]"
      unfolding in_ms_UID by blast
    then have "uid_at html k u"
      using k(1) by (simp add: uid_at_def prefix_def)
    moreover have "extract_uid_from_html html = Some u"
      using Some k(3) u(3) by (simp add: extract_uid_from_html_def m_group_def)
    ultimately show ?thesis by auto
  qed
next
  fix u
  assume a: "extract_uid_from_html html = Some u"
  then obtain m where m: "re_search UID_IN_MARKUP_PATTERN html = Some m" "m_group m 1 = Some u"
    by (auto simp: extract_uid_from_html_def split: option.splits)
  from search_from_Some[OF m(1)[unfolded re_search_def]]
  obtain k rest g alts where k: "k \<le> length html"
      "\<forall>j<k. ms UID_IN_MARKUP_PATTERN (drop j html) [] = []"
      "ms UID_IN_MARKUP_PATTERN (drop k html) [] = (rest, g) # alts" "m_groups m = g"
    by auto
  then have "(rest, g) \<in> set (ms UID_IN_MARKUP_PATTERN (drop k html) [])"
    by simp
  then obtain v where v: "uid_token v" "drop k html = v @ cps ''_visitornumber'' @ rest"
      "g = [(1, v)]"
    unfolding in_ms_UID by blast
  have "v = u"
    using m(2) k(4) v(3) by (simp add: m_group_def)
  then have at: "uid_at html k u"
    using v k(1) by (simp add: uid_at_def prefix_def)
  have "k \<le> j" if "uid_at html j u'" for j u'
  proof (rule ccontr)
    assume "\<not> k \<le> j"
    then have "j < k" by simp
    then have "ms UID_IN_MARKUP_PATTERN (drop j html) [] = []"
      using k(2) by blast
    moreover have "j \<le> length html"
      using that by (simp add: uid_at_def)
    ultimately show False
      using uid_at_iff_ms[of j html u'] that by auto
  qed
  with at show "\<exists>k. uid_at html k u \<and> (\<forall>j u'. uid_at html j u' \<longrightarrow> k \<le> j)"
    by blast
qed

lemma html_with_id_uid:
  "extract_uid_from_html html_with_id = Some (cps ''SSD-4'')"
  "uid_at html_with_id 12 (cps ''SSD-4'')"
  by (simp_all add: html_with_id_def extract_uid_from_html_def re_search_def search_from.simps
        ms.simps UID_IN_MARKUP_PATTERN_def lit_def seq_def many1_def cps_def isdecimal_def
        decimal_def decimal_zeros_def m_group_def uid_at_def uid_token_def)

theorem extract_uid_first_occurrence_witness:
  "extract_uid_from_html html_with_id = Some (cps ''SSD-4'')
   \<and> (\<exists>k. uid_at html_with_id k (cps ''SSD-4'') \<and> k \<le> 12)"
proof -
  from extract_uid_first_occurrence[of html_with_id] html_with_id_uid(1)
  obtain k where "uid_at html_with_id k (cps ''SSD-4'')"
      "\<forall>j u'. uid_at html_with_id j u' \<longrightarrow> k \<le> j"
    by blast
  then show ?thesis
    using html_with_id_uid by blast
qed

section \<open>The captured count\<close>

lemma ms_no_groups:
  "no_groups r \<Longrightarrow> (s', g') \<in> set (ms r s g) \<Longrightarrow> g' = g"
proof (induction r s g arbitrary: s' g' rule: ms.induct)
  case (1 p s g)
  then show ?case by (auto simp: in_ms_Sat)
next
  case (2 s g)
  then show ?case by (simp add: in_ms_Eps)
next
  case (3 a b s g)
  from "3.prems" obtain s1 g1 where m: "(s1, g1) \<in> set (ms a s g)" "(s', g') \<in> set (ms b s1 g1)"
    unfolding in_ms_Seq by blast
  have "g1 = g" using "3.IH"(1)[OF _ m(1)] "3.prems"(1) by simp
  moreover have "g' = g1" using "3.IH"(2)[OF m(1) refl _ m(2)] "3.prems"(1) by simp
  ultimately show ?case by simp
next
  case (4 a b s g)
  then show ?case by (auto simp: in_ms_Alt)
next
  case (5 r s g)
  from "5.prems"(2) consider "(s', g') = (s, g)"
    | s1 g1 where "(s1, g1) \<in> set (ms r s g)" "length s1 < length s"
        "(s', g') \<in> set (ms (Star r) s1 g1)"
    using in_ms_Star[of s' g' r s g] by blast
  then show ?case
  proof cases
    case 1
    then show ?thesis by simp
  next
    case 2
    have "g1 = g" using "5.IH"(1)[OF _ 2(1)] "5.prems"(1) by simp
    moreover have "g' = g1" using "5.IH"(2)[OF 2(1) refl 2(2) "5.prems"(1) 2(3)] by simp
    ultimately show ?thesis by simp
  qed
next
  case (6 n r s g)
  then show ?case by simp
qed

lemma no_groups_seq: "no_groups (seq rs) \<longleftrightarrow> list_all no_groups rs"
  by (induction rs) (simp_all add: seq_Nil seq_Cons)

lemma no_groups_simps:
  "no_groups (lit w)" "no_groups (lit_i w)" "no_groups (any_of cs)" "no_groups (none_of cs)"
  "no_groups (any_of_i cs)" "no_groups (many1 r) = no_groups r"
  "no_groups (optional r) = no_groups r"
  by (simp_all add: lit_def lit_i_def any_of_def none_of_def any_of_i_def many1_def optional_def
        no_groups_seq list_all_iff)

lemma in_ms_seq_append:
  "(s', g') \<in> set (ms (seq (xs @ ys)) s g) \<longleftrightarrow>
     (\<exists>s1 g1. (s1, g1) \<in> set (ms (seq xs) s g) \<and> (s', g') \<in> set (ms (seq ys) s1 g1))"
proof (induction xs arbitrary: s g)
  case Nil
  show ?case by (simp add: seq_Nil in_ms_Eps)
next
  case (Cons x xs)
  show ?case
    unfolding append_Cons seq_Cons in_ms_Seq Cons.IH by blast
qed

lemma in_ms_digit_group:
  "(s', g') \<in> set (ms (Grp n (many1 (Sat p))) s g) \<longleftrightarrow>
     (\<exists>u. u \<noteq> [] \<and> list_all p u \<and> s = u @ s' \<and> g' = (n, u) # g)"
  unfolding in_ms_Grp in_ms_many1_Sat by auto

lemma group_in_seq:
  assumes "list_all no_groups pre" and "list_all no_groups post"
    and "(s', g') \<in> set (ms (seq (pre @ Grp n (many1 (Sat p)) # post)) s g)"
  shows "\<exists>u. u \<noteq> [] \<and> list_all p u \<and> g' = (n, u) # g"
proof -
  from assms(3) obtain s1 g1 s2 g2 where m: "(s1, g1) \<in> set (ms (seq pre) s g)"
      "(s2, g2) \<in> set (ms (Grp n (many1 (Sat p))) s1 g1)"
      "(s', g') \<in> set (ms (seq post) s2 g2)"
    unfolding in_ms_seq_append seq_Cons in_ms_Seq by blast
  have "g1 = g"
    using ms_no_groups[OF _ m(1)] assms(1) by (simp add: no_groups_seq)
  moreover have "g' = g2"
    using ms_no_groups[OF _ m(3)] assms(2) by (simp add: no_groups_seq)
  ultimately show ?thesis
    using m(2) unfolding in_ms_digit_group by auto
qed

lemma COUNT_PATTERN_groups: "digit_group COUNT_PATTERN"
  unfolding digit_group_def
proof (intro allI impI)
  fix s s' g'
  assume a: "(s', g') \<in> set (ms COUNT_PATTERN s [])"
  have "COUNT_PATTERN =
     seq ([lit_i ''Anzahl'', many1 (Sat isspace), lit_i ''G'', any_of_i [228, 97], lit_i ''ste'',
           Star (none_of (cps ''0123456789''))] @ Grp 1 (many1 (Sat isdecimal)) # [])"
    by (simp add: COUNT_PATTERN_def)
  from group_in_seq[OF _ _ a[unfolded this]] show "\<exists>ds. digit_run ds \<and> g' = [(1, ds)]"
    by (simp add: no_groups_simps digit_run_def)
qed

lemma COUNT_ID_PATTERN_groups: "digit_group COUNT_ID_PATTERN"
  unfolding digit_group_def
proof (intro allI impI)
  fix s s' g'
  assume a: "(s', g') \<in> set (ms COUNT_ID_PATTERN s [])"
  have "COUNT_ID_PATTERN =
     seq ([lit_i ''<td'', Star (none_of [62]), lit_i ''id='', any_of [34, 39], lit_i ''SSD-'',
          many1 (Sat isdecimal), lit_i ''_visitornumber'', any_of [34, 39], Star (none_of [62]),
          lit_i ''>'', Star (Sat isspace)] @ Grp 1 (many1 (Sat isdecimal)) #
          [Star (Sat isspace), lit_i ''<''])"
    by (simp add: COUNT_ID_PATTERN_def)
  from group_in_seq[OF _ _ a[unfolded this]] show "\<exists>ds. digit_run ds \<and> g' = [(1, ds)]"
    by (simp add: no_groups_simps digit_run_def)
qed

lemma CAPACITY_PATTERN_groups: "digit_group CAPACITY_PATTERN"
  unfolding digit_group_def
proof (intro allI impI)
  fix s s' g'
  assume a: "(s', g') \<in> set (ms CAPACITY_PATTERN s [])"
  have "CAPACITY_PATTERN =
     seq ([optional (seq [lit_i ''max'', optional (lit_i ''.''), Star (Sat isspace)]),
          Alt (seq [lit_i ''Kapazit'', any_of_i [97, 228], lit_i ''t'']) (lit_i ''von''),
          Star (Sat isspace)] @ Grp 1 (many1 (Sat isdecimal)) # [])"
    by (simp add: CAPACITY_PATTERN_def)
  from group_in_seq[OF _ _ a[unfolded this]] show "\<exists>ds. digit_run ds \<and> g' = [(1, ds)]"
    by (simp add: no_groups_simps no_groups_seq digit_run_def)
qed

lemma search_group:
  assumes "re_search r s = Some m" and "digit_group r"
  shows "\<exists>ds. digit_run ds \<and> m_group m 1 = Some ds"
proof -
  from search_from_Some[OF assms(1)[unfolded re_search_def]]
  obtain k rest g alts where "ms r (drop k s) [] = (rest, g) # alts" "m_groups m = g"
    by auto
  moreover from this have "(rest, g) \<in> set (ms r (drop k s) [])" by simp
  ultimately show ?thesis
    using assms(2) unfolding digit_group_def by (fastforce simp: m_group_def)
qed

lemma isspace_not_decimal: "isspace c \<Longrightarrow> decimal c = None"
  unfolding isspace_def by (elim insertE emptyE) (simp_all add: decimal_def decimal_zeros_def)

lemma sign_not_decimal: "decimal 45 = None" "decimal 43 = None" "decimal 95 = None"
  by (simp_all add: decimal_def decimal_zeros_def)

lemma digits_from_run:
  "list_all isdecimal ds \<Longrightarrow> \<exists>n. digits_from acc ds = Some n"
proof (induction ds arbitrary: acc)
  case Nil
  show ?case by simp
next
  case (Cons x xs)
  then obtain d where d: "decimal x = Some d" by (auto simp: isdecimal_def)
  then have "x \<noteq> 95" using sign_not_decimal by auto
  then show ?case
    using d Cons by simp
qed

lemma strip_with_id:
  assumes "s \<noteq> []" and "\<not> p (hd s)" and "\<not> p (last s)"
  shows "strip_with p s = s"
proof -
  have "dropWhile p s = s"
    using assms(1,2) by (cases s) auto
  moreover have "dropWhile p (rev s) = rev s"
    using assms(1,3) by (cases "rev s") (auto simp: last_rev[symmetric] simp del: last_rev)
  ultimately show ?thesis
    by (simp add: strip_with_def)
qed

lemma py_int_digit_run:
  assumes "digit_run ds"
  shows "\<exists>n. py_int ds = Some (int n)"
proof -
  from assms obtain x xs where ds: "ds = x # xs" "list_all isdecimal (x # xs)"
    by (cases ds) (auto simp: digit_run_def)
  have nd: "\<not> numeric_space c" if "isdecimal c" for c
    using that isspace_not_decimal[of c] by (auto simp: numeric_space_def isdecimal_def)
  have "isdecimal (hd ds)" "isdecimal (last ds)"
    using ds by (auto simp: list_all_iff)
  then have "strip_with numeric_space ds = ds"
    using strip_with_id[of ds numeric_space] nd ds(1) by auto
  moreover obtain d where d: "decimal x = Some d"
    using ds(2) by (auto simp: isdecimal_def)
  moreover have "x \<noteq> 45" "x \<noteq> 43"
    using d sign_not_decimal by auto
  moreover obtain n where "digits_from d xs = Some n"
    using digits_from_run[of xs d] ds(2) by auto
  ultimately show ?thesis
    using ds(1) by (simp add: py_int_def digit_string_def)
qed

lemma int_group_search:
  assumes "re_search r s = Some m" and "digit_group r"
  shows "\<exists>ds n. digit_run ds \<and> m_group m 1 = Some ds \<and> py_int ds = Some n \<and> int_group m 1 = Inr n"
proof -
  from search_group[OF assms] obtain ds where ds: "digit_run ds" "m_group m 1 = Some ds"
    by blast
  from py_int_digit_run[OF ds(1)] obtain n where "py_int ds = Some (int n)" by blast
  with ds show ?thesis
    by (auto simp: int_group_def)
qed

lemma capacity_in_cases:
  "(re_search CAPACITY_PATTERN w = None \<and> capacity_in w = Inr None) \<or>
   (\<exists>m ds c. re_search CAPACITY_PATTERN w = Some m \<and> digit_run ds \<and> m_group m 1 = Some ds
      \<and> py_int ds = Some c \<and> capacity_in w = Inr (Some c))"
proof (cases "re_search CAPACITY_PATTERN w")
  case None
  then show ?thesis by (simp add: capacity_in_def)
next
  case (Some m)
  from int_group_search[OF Some CAPACITY_PATTERN_groups]
  show ?thesis using Some by (auto simp: capacity_in_def)
qed

section \<open>The primary extractor\<close>

lemma capacity_in_Inr: "\<exists>cap. capacity_in w = Inr cap"
  using capacity_in_cases[of w] by auto

lemma parse_strategy_A:
  assumes "re_search COUNT_ID_PATTERN html = Some m"
  shows "\<exists>ds n cap. digit_run ds \<and> m_group m 1 = Some ds \<and> py_int ds = Some n
      \<and> capacity_in (let text = extract_visible_text h html; i = str_find text (py_str n)
                      in if i \<noteq> - 1 then py_slice text i (i + 100) else text) = Inr cap
      \<and> parse_guest_count h now html = Inr \<lparr>timestamp = now, count = n, capacity = cap\<rparr>"
proof -
  from int_group_search[OF assms COUNT_ID_PATTERN_groups]
  obtain ds n where ds: "digit_run ds" "m_group m 1 = Some ds" "py_int ds = Some n"
      "int_group m 1 = Inr n"
    by blast
  define w where "w = (let text = extract_visible_text h html; i = str_find text (py_str n)
                      in if i \<noteq> - 1 then py_slice text i (i + 100) else text)"
  obtain cap where cap: "capacity_in w = Inr cap"
    using capacity_in_Inr by blast
  have "parse_guest_count h now html = Inr \<lparr>timestamp = now, count = n, capacity = cap\<rparr>"
    using assms ds(4) cap unfolding parse_guest_count_def w_def Let_def
    by (simp split: if_splits)
  then show ?thesis
    using ds cap unfolding w_def by blast
qed

lemma parse_strategy_B:
  assumes "re_search COUNT_ID_PATTERN html = None"
    and "re_search COUNT_PATTERN (extract_visible_text h html) = Some m"
  shows "\<exists>ds n cap. digit_run ds \<and> m_group m 1 = Some ds \<and> py_int ds = Some n
      \<and> capacity_in (py_slice (extract_visible_text h html) (int (m_end m)) (int (m_end m) + 100))
          = Inr cap
      \<and> parse_guest_count h now html = Inr \<lparr>timestamp = now, count = n, capacity = cap\<rparr>"
proof -
  from int_group_search[OF assms(2) COUNT_PATTERN_groups]
  obtain ds n where ds: "digit_run ds" "m_group m 1 = Some ds" "py_int ds = Some n"
      "int_group m 1 = Inr n"
    by blast
  obtain cap where cap:
    "capacity_in (py_slice (extract_visible_text h html) (int (m_end m)) (int (m_end m) + 100))
       = Inr cap"
    using capacity_in_Inr by blast
  have "parse_guest_count h now html = Inr \<lparr>timestamp = now, count = n, capacity = cap\<rparr>"
    using assms ds(4) cap unfolding parse_guest_count_def Let_def by simp
  then show ?thesis
    using ds cap by blast
qed


lemmas parse_eval = cps_def isspace_def numeric_space_def decimal_def decimal_zeros_def
  isdecimal_def strip_with_def str_strip_def py_slice_def py_str_def digit_string_def py_int_def
  seq_def many1_def optional_def lit_def any_of_def none_of_def lower_def ic_def lit_i_def
  any_of_i_def m_group_def re_search_def search_from.simps ms.simps re_sub.simps
  COUNT_PATTERN_def COUNT_ID_PATTERN_def UID_IN_MARKUP_PATTERN_def CAPACITY_PATTERN_def
  extract_visible_text_def extract_uid_from_html_def int_group_def capacity_in_def
  parse_guest_count_def unescape_def Let_def

lemma str_nat_examples:
  "str_nat 58 = [53, 56]" "str_nat 68 = [54, 56]" "str_nat 73 = [55, 51]" "str_nat 7 = [55]"
  by (simp_all add: str_nat.simps[of 58] str_nat.simps[of 5] str_nat.simps[of 68]
        str_nat.simps[of 6] str_nat.simps[of 73] str_nat.simps[of 7])


lemma html_with_id_eval:
  "re_search COUNT_ID_PATTERN html_with_id =
     Some \<lparr>m_start = 4, m_end = 49, m_groups = [(1, cps ''68'')]\<rparr>"
  "extract_visible_text html5_excerpt html_with_id = cps ''68 Kapazit'' @ [228] @ cps ''t 120''"
  "parse_guest_count html5_excerpt 0 html_with_id =
     Inr \<lparr>timestamp = 0, count = 68, capacity = Some 120\<rparr>"
  by (simp_all add: parse_eval html_with_id_def str_nat_examples)

lemma html_text_only_eval:
  "re_search COUNT_ID_PATTERN html_text_only = None"
  "extract_visible_text html5_excerpt html_text_only = cps ''Anzahl G'' @ [228] @ cps ''ste 73 von 250''"
  "re_search COUNT_PATTERN (extract_visible_text html5_excerpt html_text_only) =
     Some \<lparr>m_start = 0, m_end = 15, m_groups = [(1, cps ''73'')]\<rparr>"
  "parse_guest_count html5_excerpt 0 html_text_only =
     Inr \<lparr>timestamp = 0, count = 73, capacity = Some 250\<rparr>"
  by (simp_all add: parse_eval html_text_only_def str_nat_examples)



text \<open>
  C1. When the cell pattern matches the raw HTML, the count is the integer of its captured
  digit run, whatever the phrase pattern would find. Only when the cell pattern does not
  match is the phrase pattern searched in the normalized text, and then the count is the
  integer of its captured digit run. The input \<open>Anzahl G\xe4ste aktuell: 58\<close> gives the
  count 58 and no capacity.
\<close>

lemma example_no_capacity:
  "parse_guest_count h now (cps ''Anzahl G'' @ [228] @ cps ''ste aktuell: 58'') =
     Inr \<lparr>timestamp = now, count = 58, capacity = None\<rparr>"
  by (simp add: parse_eval)

theorem primary_extractor_order:
  "(\<forall>m. re_search COUNT_ID_PATTERN html = Some m \<longrightarrow>
      (\<exists>ds r. m_group m 1 = Some ds \<and> digit_run ds \<and> py_int ds = Some (count r) \<and>
         parse_guest_count h now html = Inr r))
   \<and> (re_search COUNT_ID_PATTERN html = None \<longrightarrow>
        (\<forall>m. re_search COUNT_PATTERN (extract_visible_text h html) = Some m \<longrightarrow>
           (\<exists>ds r. m_group m 1 = Some ds \<and> digit_run ds \<and> py_int ds = Some (count r) \<and>
              parse_guest_count h now html = Inr r)))
   \<and> parse_guest_count h now (cps ''Anzahl G'' @ [228] @ cps ''ste aktuell: 58'') =
        Inr \<lparr>timestamp = now, count = 58, capacity = None\<rparr>"
proof (intro conjI allI impI)
  fix m
  assume "re_search COUNT_ID_PATTERN html = Some m"
  from parse_strategy_A[OF this, of h now]
  show "\<exists>ds r. m_group m 1 = Some ds \<and> digit_run ds \<and> py_int ds = Some (count r) \<and>
          parse_guest_count h now html = Inr r"
    by (metis GuestCount.select_convs(2))
next
  fix m
  assume "re_search COUNT_ID_PATTERN html = None"
    and "re_search COUNT_PATTERN (extract_visible_text h html) = Some m"
  from parse_strategy_B[OF this, of now]
  show "\<exists>ds r. m_group m 1 = Some ds \<and> digit_run ds \<and> py_int ds = Some (count r) \<and>
          parse_guest_count h now html = Inr r"
    by (metis GuestCount.select_convs(2))
next
  show "parse_guest_count h now (cps ''Anzahl G'' @ [228] @ cps ''ste aktuell: 58'') =
        Inr \<lparr>timestamp = now, count = 58, capacity = None\<rparr>"
    by (rule example_no_capacity)
qed

theorem primary_extractor_order_witness:
  "re_search COUNT_ID_PATTERN html_with_id =
     Some \<lparr>m_start = 4, m_end = 49, m_groups = [(1, cps ''68'')]\<rparr>
   \<and> (\<exists>r. py_int (cps ''68'') = Some (count r) \<and>
          parse_guest_count html5_excerpt 0 html_with_id = Inr r)
   \<and> re_search COUNT_ID_PATTERN html_text_only = None
   \<and> re_search COUNT_PATTERN (extract_visible_text html5_excerpt html_text_only) =
       Some \<lparr>m_start = 0, m_end = 15, m_groups = [(1, cps ''73'')]\<rparr>
   \<and> (\<exists>r. py_int (cps ''73'') = Some (count r) \<and>
          parse_guest_count html5_excerpt 0 html_text_only = Inr r)
   \<and> parse_guest_count html5_excerpt 0 html_text_only =
       Inr \<lparr>timestamp = 0, count = 73, capacity = Some 250\<rparr>"
proof -
  note a = primary_extractor_order[of html_with_id html5_excerpt 0]
  note b = primary_extractor_order[of html_text_only html5_excerpt 0]
  have "\<exists>r. py_int (cps ''68'') = Some (count r) \<and>
          parse_guest_count html5_excerpt 0 html_with_id = Inr r"
    using a html_with_id_eval(1) by (auto simp: m_group_def)
  moreover have "\<exists>r. py_int (cps ''73'') = Some (count r) \<and>
          parse_guest_count html5_excerpt 0 html_text_only = Inr r"
    using b html_text_only_eval(1,3) by (auto simp: m_group_def)
  ultimately show ?thesis
    using html_with_id_eval(1) html_text_only_eval(1,3,4) by simp
qed

section \<open>The WebSocket fallback: protocol and frames\<close>

lemma replicate_123:
  "replicate 1 x = [x]" "replicate 2 x = [x, x]" "replicate 3 x = [x, x, x]"
  by (simp_all add: numeral_2_eq_2 numeral_3_eq_3)

lemma less_3_cases: "(i::nat) < 3 \<longleftrightarrow> i = 0 \<or> i = 1 \<or> i = 2"
  by auto

lemma all_less_3: "(\<forall>j<(3::nat). P j) \<longleftrightarrow> P 0 \<and> P 1 \<and> P 2"
  by (auto simp: less_3_cases)

lemma ex_less_3: "(\<exists>i<(3::nat). P i) \<longleftrightarrow> P 0 \<or> P 1 \<or> P 2"
  by (auto simp: less_3_cases)

lemma all_less_2: "(\<forall>j<(2::nat). P j) \<longleftrightarrow> P 0 \<and> P 1"
  by (auto simp: less_Suc_eq numeral_2_eq_2)

lemma ws_session_cases:
  "ws_session uid fs =
     (case recv_once uid (frame_at fs 0) of
        Inl e \<Rightarrow> (Inl e, replicate 1 (Ws_recv 10))
      | Inr (Some result) \<Rightarrow> (Inr (Some result), replicate 1 (Ws_recv 10))
      | Inr None \<Rightarrow>
          (case recv_once uid (frame_at fs 1) of
             Inl e \<Rightarrow> (Inl e, replicate 2 (Ws_recv 10))
           | Inr (Some result) \<Rightarrow> (Inr (Some result), replicate 2 (Ws_recv 10))
           | Inr None \<Rightarrow>
               (case recv_once uid (frame_at fs 2) of
                  Inl e \<Rightarrow> (Inl e, replicate 3 (Ws_recv 10))
                | Inr (Some result) \<Rightarrow> (Inr (Some result), replicate 3 (Ws_recv 10))
                | Inr None \<Rightarrow> (Inr None, replicate 3 (Ws_recv 10)))))"
  by (simp add: ws_session_def frame_at_def drop_Suc numeral_2_eq_2 numeral_3_eq_3
           split: sum.splits option.splits)

lemma scan_payload_find:
  "scan_payload uid items =
     (case find (\<lambda>item. is_dict item \<and> dict_get item ''uid'' = PStr uid) items of
        None \<Rightarrow> None
      | Some item \<Rightarrow> record_result item)"
  by (induction items) auto

lemma scan_payload_no_uid:
  "\<forall>item \<in> set items. \<not> (is_dict item \<and> dict_get item ''uid'' = PStr uid) \<Longrightarrow>
     scan_payload uid items = None"
  by (induction items) auto

lemma recv_once_Inl: "(\<exists>e. recv_once uid fr = Inl e) \<longleftrightarrow> aborting fr"
  by (cases fr) (auto simp: recv_once_def aborting_def split: pyval.splits)

lemmas feed_eval = recv_once_def record_result_def dict_get_def is_dict_def feed_record_def
  frame_at_def next_frame_def cps_def Let_def

lemma example_frames:
  "recv_once (cps ''SSD-4'') (frame_at (ws_frames example_env) 0) = Inr None"
  "recv_once (cps ''SSD-4'') (frame_at (ws_frames example_env) 1) = Inr (Some (42, Some 120))"
  by (simp_all add: example_env_def feed_eval int_float_examples[unfolded cps_def, simplified])

text \<open>
  C5. With the connection made and the request \<open>all\<close> accepted, the client performs: connect,
  send \<open>all\<close> once, between one and three \<open>recv\<close> calls each with a wait of 10 seconds, close.
  It returns the pair of the first of the three frames in which \<open>_recv_once\<close> finds one (the
  frames before it having given nothing), and fails with the message for an exhausted stream
  when none of the three frames gives one.
\<close>

theorem feed_protocol:
  assumes "websockets_installed env" and "ws_connect_ok env" and "ws_send_ok env"
  shows "(\<exists>k. 1 \<le> k \<and> k \<le> 3 \<and>
            snd (fetch_count_via_websocket env uid) =
              [Ws_connect, Ws_send (cps ''all'')] @ replicate k (Ws_recv 10) @ [Ws_close])
       \<and> (\<forall>i result. i < 3 \<longrightarrow>
             recv_once uid (frame_at (ws_frames env) i) = Inr (Some result) \<longrightarrow>
             (\<forall>j<i. recv_once uid (frame_at (ws_frames env) j) = Inr None) \<longrightarrow>
             fst (fetch_count_via_websocket env uid) = Inr result)
       \<and> ((\<forall>j<3. recv_once uid (frame_at (ws_frames env) j) = Inr None) \<longrightarrow>
             fst (fetch_count_via_websocket env uid) =
               Inl (GuestCountError ''Could not find guest count in WebSocket stream''))"
proof (intro conjI allI impI)
  show "\<exists>k. 1 \<le> k \<and> k \<le> 3 \<and>
          snd (fetch_count_via_websocket env uid) =
            [Ws_connect, Ws_send (cps ''all'')] @ replicate k (Ws_recv 10) @ [Ws_close]"
    using assms unfolding fetch_count_via_websocket_def ws_session_cases
    by (auto split: sum.splits option.splits intro: exI[of _ 1] exI[of _ 2] exI[of _ 3])
next
  fix i result
  assume "i < 3" and "recv_once uid (frame_at (ws_frames env) i) = Inr (Some result)"
    and "\<forall>j<i. recv_once uid (frame_at (ws_frames env) j) = Inr None"
  then show "fst (fetch_count_via_websocket env uid) = Inr result"
    using assms unfolding fetch_count_via_websocket_def ws_session_cases
    by (auto simp: less_3_cases all_less_2)
next
  assume "\<forall>j<3. recv_once uid (frame_at (ws_frames env) j) = Inr None"
  then show "fst (fetch_count_via_websocket env uid) =
      Inl (GuestCountError ''Could not find guest count in WebSocket stream'')"
    using assms unfolding fetch_count_via_websocket_def ws_session_cases
    by (simp add: all_less_3)
qed

theorem feed_protocol_witness:
  "websockets_installed example_env \<and> ws_connect_ok example_env \<and> ws_send_ok example_env
   \<and> recv_once (cps ''SSD-4'') (frame_at (ws_frames example_env) 1) = Inr (Some (42, Some 120))
   \<and> recv_once (cps ''SSD-4'') (frame_at (ws_frames example_env) 0) = Inr None
   \<and> fst (fetch_count_via_websocket example_env (cps ''SSD-4'')) = Inr (42, Some 120)"
proof -
  have h: "websockets_installed example_env" "ws_connect_ok example_env"
    "ws_send_ok example_env"
    by (simp_all add: example_env_def)
  have first: "\<forall>j<1. recv_once (cps ''SSD-4'') (frame_at (ws_frames example_env) j) = Inr None"
    using example_frames by simp
  from feed_protocol[OF h, of "cps ''SSD-4''"]
  have "\<forall>i result. i < 3 \<longrightarrow>
          recv_once (cps ''SSD-4'') (frame_at (ws_frames example_env) i) = Inr (Some result) \<longrightarrow>
          (\<forall>j<i. recv_once (cps ''SSD-4'') (frame_at (ws_frames example_env) j) = Inr None) \<longrightarrow>
          fst (fetch_count_via_websocket example_env (cps ''SSD-4'')) = Inr result"
    by blast
  then have "fst (fetch_count_via_websocket example_env (cps ''SSD-4'')) = Inr (42, Some 120)"
    using example_frames(2) first by (metis one_less_numeral_iff semiring_norm(77))
  then show ?thesis
    using h example_frames first by simp
qed

lemma skipping_frames_eval:
  "recv_once (cps ''SSD-4'') (frame_at skipping_frames 0) = Inr None"
  "recv_once (cps ''SSD-4'') (frame_at skipping_frames 1) = Inr None"
  "aborting (frame_at skipping_frames 2)"
  by (simp_all add: skipping_frames_def aborting_def feed_eval numeral_2_eq_2)

text \<open>
  C10. A frame whose JSON is not an array, or is an array without a record of the wanted
  \<open>uid\<close>, gives nothing and does not end the session: when the first \<open>i\<close> frames give nothing
  and frame \<open>i\<close> (\<open>i < 3\<close>) does not, exactly \<open>i + 1\<close> \<open>recv\<close> calls are made. The session
  fails with the WebSocket error exactly when, among the at most three frames it reads,
  one is reached that is a timeout, a broken connection or a text that is not JSON.
\<close>

theorem feed_skips_and_aborts:
  assumes "websockets_installed env" and "ws_connect_ok env" and "ws_send_ok env"
  shows "(\<forall>v. (\<forall>items. v \<noteq> PList items) \<longrightarrow> recv_once uid (Json v) = Inr None)
       \<and> (\<forall>items. (\<forall>item \<in> set items. \<not> (is_dict item \<and> dict_get item ''uid'' = PStr uid)) \<longrightarrow>
             recv_once uid (Json (PList items)) = Inr None)
       \<and> (\<forall>i<3. (\<forall>j<i. recv_once uid (frame_at (ws_frames env) j) = Inr None) \<longrightarrow>
             recv_once uid (frame_at (ws_frames env) i) \<noteq> Inr None \<longrightarrow>
             snd (fetch_count_via_websocket env uid) =
               [Ws_connect, Ws_send (cps ''all'')] @ replicate (Suc i) (Ws_recv 10) @ [Ws_close])
       \<and> (fst (fetch_count_via_websocket env uid) =
              Inl (GuestCountError ''Failed to fetch guest count via WebSocket'') \<longleftrightarrow>
            (\<exists>i<3. aborting (frame_at (ws_frames env) i) \<and>
                   (\<forall>j<i. recv_once uid (frame_at (ws_frames env) j) = Inr None)))"
proof (intro conjI)
  show "\<forall>v. (\<forall>items. v \<noteq> PList items) \<longrightarrow> recv_once uid (Json v) = Inr None"
    by (auto simp: recv_once_def split: pyval.splits)
  show "\<forall>items. (\<forall>item \<in> set items. \<not> (is_dict item \<and> dict_get item ''uid'' = PStr uid)) \<longrightarrow>
          recv_once uid (Json (PList items)) = Inr None"
    by (simp add: recv_once_def scan_payload_no_uid)
  show "\<forall>i<3. (\<forall>j<i. recv_once uid (frame_at (ws_frames env) j) = Inr None) \<longrightarrow>
          recv_once uid (frame_at (ws_frames env) i) \<noteq> Inr None \<longrightarrow>
          snd (fetch_count_via_websocket env uid) =
            [Ws_connect, Ws_send (cps ''all'')] @ replicate (Suc i) (Ws_recv 10) @ [Ws_close]"
    using assms unfolding fetch_count_via_websocket_def ws_session_cases
    by (auto simp: less_3_cases all_less_2 replicate_123 split: sum.splits option.splits)
  show "fst (fetch_count_via_websocket env uid) =
          Inl (GuestCountError ''Failed to fetch guest count via WebSocket'') \<longleftrightarrow>
        (\<exists>i<3. aborting (frame_at (ws_frames env) i) \<and>
               (\<forall>j<i. recv_once uid (frame_at (ws_frames env) j) = Inr None))"
    using assms recv_once_Inl[of uid "frame_at (ws_frames env) 0"]
      recv_once_Inl[of uid "frame_at (ws_frames env) 1"]
      recv_once_Inl[of uid "frame_at (ws_frames env) 2"]
    unfolding fetch_count_via_websocket_def ws_session_cases ex_less_3
    by (auto simp: all_less_2 split: sum.splits option.splits)
qed

theorem feed_skips_and_aborts_witness:
  "websockets_installed (example_env\<lparr>ws_frames := skipping_frames\<rparr>)
   \<and> ws_connect_ok (example_env\<lparr>ws_frames := skipping_frames\<rparr>)
   \<and> ws_send_ok (example_env\<lparr>ws_frames := skipping_frames\<rparr>)
   \<and> recv_once (cps ''SSD-4'') (frame_at skipping_frames 0) = Inr None
   \<and> recv_once (cps ''SSD-4'') (frame_at skipping_frames 1) = Inr None
   \<and> aborting (frame_at skipping_frames 2)
   \<and> fetch_count_via_websocket (example_env\<lparr>ws_frames := skipping_frames\<rparr>) (cps ''SSD-4'') =
       (Inl (GuestCountError ''Failed to fetch guest count via WebSocket''),
        [Ws_connect, Ws_send (cps ''all''), Ws_recv 10, Ws_recv 10, Ws_recv 10, Ws_close])"
proof -
  let ?env = "example_env\<lparr>ws_frames := skipping_frames\<rparr>"
  have h: "websockets_installed ?env" "ws_connect_ok ?env" "ws_send_ok ?env"
    by (simp_all add: example_env_def)
  have fs: "ws_frames ?env = skipping_frames"
    by simp
  note t = feed_skips_and_aborts[OF h, of "cps ''SSD-4''", unfolded fs ex_less_3 all_less_3]
  have failed: "fst (fetch_count_via_websocket ?env (cps ''SSD-4'')) =
      Inl (GuestCountError ''Failed to fetch guest count via WebSocket'')"
    using t skipping_frames_eval by (simp add: all_less_2)
  have recvs: "snd (fetch_count_via_websocket ?env (cps ''SSD-4'')) =
      [Ws_connect, Ws_send (cps ''all''), Ws_recv 10, Ws_recv 10, Ws_recv 10, Ws_close]"
    using t skipping_frames_eval recv_once_Inl[of "cps ''SSD-4''" "frame_at skipping_frames 2"]
    by (auto simp: all_less_2 numeral_3_eq_3)
  show ?thesis
    using h skipping_frames_eval failed recvs by (simp add: prod_eq_iff)
qed

text \<open>
  C4, as the code has it. In a frame that is a JSON array the first record with the wanted
  \<open>uid\<close> decides alone: its \<open>currentfill\<close> and \<open>maxspace\<close> go through \<open>int(float(...))\<close>; when
  \<open>currentfill\<close> does not convert the frame gives nothing, whatever records follow; when
  \<open>maxspace\<close> is null or does not convert the capacity is unset.
\<close>

theorem recv_once_first_record:
  "recv_once uid (Json (PList items)) =
     Inr (case find (\<lambda>item. is_dict item \<and> dict_get item ''uid'' = PStr uid) items of
            None \<Rightarrow> None
          | Some item \<Rightarrow>
              (case int_float (dict_get item ''currentfill'') of
                 None \<Rightarrow> None
               | Some count_val \<Rightarrow>
                   Some (count_val,
                         if dict_get item ''maxspace'' = PNone then None
                         else int_float (dict_get item ''maxspace''))))"
  by (simp add: recv_once_def scan_payload_find record_result_def Let_def
           split: option.splits)

theorem recv_once_first_record_witness:
  "recv_once (cps ''SSD-4'')
     (Json (PList [feed_record ''SSD-7'' (PStr (cps ''3'')) (PStr (cps ''50'')),
                   feed_record ''SSD-4'' (PStr (cps ''42'')) (PStr (cps ''n/a''))])) =
   Inr (Some (42, None))
   \<and> recv_once (cps ''SSD-4'') (Json (PList two_records)) = Inr None"
  unfolding recv_once_first_record two_records_def
  by (simp add: dict_get_def is_dict_def feed_record_def cps_def
        int_float_examples[unfolded cps_def, simplified])

text \<open>
  The claim C4 as it is worded fails on \<open>two_records\<close>: the first record of the pool has a
  \<open>currentfill\<close> that does not convert, the second has the count 5 and the capacity 10.
  A scan that went on after the first record would return that pair; \<open>_recv_once\<close>
  returns \<open>None\<close> for the frame.
\<close>

theorem recv_once_continues_counterexample:
  "recv_once (cps ''SSD-4'') (Json (PList two_records)) = Inr None
   \<and> scan_payload_spec (cps ''SSD-4'') two_records = Some (5, Some 10)"
  by (simp add: two_records_def feed_eval int_float_examples[unfolded cps_def, simplified])

section \<open>The orchestrator: a failed fetch\<close>

text \<open>
  C8. When the request fails in transport, or the response has a status outside 200 to
  299, \<open>fetch_guest_count_async\<close> raises the fetch error; the only actions are the request
  and the closing of a client the function opened itself: no debug file, no WebSocket.
\<close>

theorem fetch_failed_no_fallback:
  assumes "httpx_installed env"
    and "http_get env = Transport_error \<or>
         (\<exists>status html. http_get env = Response status html \<and> \<not> (200 \<le> status \<and> status < 300))"
  shows "fetch_guest_count_async env =
           (Inl (GuestCountError ''Failed to fetch guest count''), Http_get # closing env)
       \<and> set (snd (fetch_guest_count_async env)) \<subseteq> {Http_get, Client_close}"
  using assms by (auto simp: fetch_guest_count_async_def closing_def)

theorem fetch_failed_no_fallback_witness:
  "httpx_installed (example_env\<lparr>http_get := Response 503 (cps ''Service Unavailable'')\<rparr>)
   \<and> fetch_guest_count_async
        (example_env\<lparr>http_get := Response 503 (cps ''Service Unavailable'')\<rparr>) =
       (Inl (GuestCountError ''Failed to fetch guest count''), [Http_get, Client_close])
   \<and> fetch_guest_count_async (example_env\<lparr>http_get := Transport_error\<rparr>) =
       (Inl (GuestCountError ''Failed to fetch guest count''), [Http_get, Client_close])"
proof -
  let ?env = "example_env\<lparr>http_get := Response 503 (cps ''Service Unavailable'')\<rparr>"
  let ?env' = "example_env\<lparr>http_get := Transport_error\<rparr>"
  have h: "httpx_installed ?env" "httpx_installed ?env'"
    by (simp_all add: example_env_def)
  have "fetch_guest_count_async ?env =
      (Inl (GuestCountError ''Failed to fetch guest count''), Http_get # closing ?env)"
    using fetch_failed_no_fallback[OF h(1)] by simp
  moreover have "fetch_guest_count_async ?env' =
      (Inl (GuestCountError ''Failed to fetch guest count''), Http_get # closing ?env')"
    using fetch_failed_no_fallback[OF h(2)] by simp
  ultimately show ?thesis
    using h by (simp add: closing_def example_env_def)
qed

end
